theory Spec2Isabelle
  imports Main "HOL-Library.List_Lexorder"
begin

section \<open>Strings\<close>

text \<open>
  A Python \<open>str\<close> is the list of its code points, so that comparing, sorting and searching
  strings are what they are in Python. \<open>S\<close> turns an ASCII literal into such a string.
\<close>

type_synonym ustring = "int list"

definition S :: "string \<Rightarrow> ustring" where
  "S s = map of_char s"

abbreviation SEP :: int where "SEP \<equiv> 47"

abbreviation DOT :: int where "DOT \<equiv> 46"

abbreviation SPACE :: int where "SPACE \<equiv> 32"

abbreviation NEWLINE :: int where "NEWLINE \<equiv> 10"

text \<open>
  \<open>s.lower()\<close>. On an ASCII string it maps \<open>A\<close> to \<open>Z\<close> to \<open>a\<close> to \<open>z\<close>. On any other string
  it is Python's Unicode lowercasing, which is not written out here: it is the parameter
  \<open>ul\<close> of everything below, and nothing is assumed of it.
\<close>

definition is_ascii :: "ustring \<Rightarrow> bool" where
  "is_ascii s = list_all (\<lambda>c. 0 \<le> c \<and> c < 128) s"

definition ascii_lower :: "int \<Rightarrow> int" where
  "ascii_lower c = (if 65 \<le> c \<and> c \<le> 90 then c + 32 else c)"

definition lower :: "(ustring \<Rightarrow> ustring) \<Rightarrow> ustring \<Rightarrow> ustring" where
  "lower ul s = (if is_ascii s then map ascii_lower s else ul s)"

text \<open>\<open>s.startswith(key)\<close>\<close>

fun startswith :: "ustring \<Rightarrow> ustring \<Rightarrow> bool" where
  "startswith s [] = True"
| "startswith [] (k # ks) = False"
| "startswith (c # cs) (k # ks) = (c = k \<and> startswith cs ks)"

text \<open>\<open>key in s\<close> on strings: \<open>key\<close> occurs in \<open>s\<close> as a contiguous substring.\<close>

fun contains :: "ustring \<Rightarrow> ustring \<Rightarrow> bool" where
  "contains [] key = (key = [])"
| "contains (c # cs) key = (startswith (c # cs) key \<or> contains cs key)"

text \<open>\<open>s.rfind(c)\<close>: the index of the last occurrence of \<open>c\<close>, or \<open>-1\<close>.\<close>

fun rfind :: "ustring \<Rightarrow> int \<Rightarrow> int" where
  "rfind [] c = - 1"
| "rfind (x # xs) c =
     (let r = rfind xs c in if 0 \<le> r then r + 1 else if x = c then 0 else - 1)"

text \<open>\<open>s.count(c)\<close> for a single character.\<close>

definition count_char :: "ustring \<Rightarrow> int \<Rightarrow> nat" where
  "count_char s c = length (filter (\<lambda>x. x = c) s)"

text \<open>
  \<open>s.replace(old, '')\<close> for a non-empty \<open>old\<close>: every occurrence of \<open>old\<close>, found from
  left to right without overlap, is removed.
\<close>

fun remove_all :: "ustring \<Rightarrow> ustring \<Rightarrow> ustring" where
  "remove_all [] old = []"
| "remove_all (c # cs) old =
     (if old \<noteq> [] \<and> startswith (c # cs) old
      then remove_all (drop (length old) (c # cs)) old
      else c # remove_all cs old)"

text \<open>\<open>s.split(c)\<close> for a single character.\<close>

fun split_on :: "int \<Rightarrow> ustring \<Rightarrow> ustring list" where
  "split_on sep [] = [[]]"
| "split_on sep (c # cs) =
     (if c = sep then [] # split_on sep cs
      else (case split_on sep cs of [] \<Rightarrow> [[c]] | x # xs \<Rightarrow> (c # x) # xs))"

text \<open>\<open>sep.join(xs)\<close>\<close>

fun join :: "ustring \<Rightarrow> ustring list \<Rightarrow> ustring" where
  "join sep [] = []"
| "join sep [x] = x"
| "join sep (x # y # ys) = x @ sep @ join sep (y # ys)"

section \<open>Paths (\<open>pathlib.Path\<close> and \<open>os.path\<close> on POSIX, Python 3.13 and earlier)\<close>

text \<open>
  A \<open>Path\<close> is its anchor (\<open>''\<close>, \<open>'/'\<close> or \<open>'//'\<close>) and the list of its components.
\<close>

record path =
  anchor :: ustring
  tail :: "ustring list"

definition parse_anchor :: "ustring \<Rightarrow> ustring" where
  "parse_anchor s =
     (if startswith s [SEP, SEP] \<and> \<not> startswith s [SEP, SEP, SEP] then [SEP, SEP]
      else if startswith s [SEP] then [SEP]
      else [])"

text \<open>\<open>Path(s)\<close>: empty components and \<open>'.'\<close> components are dropped.\<close>

definition Path :: "ustring \<Rightarrow> path" where
  "Path s = \<lparr>anchor = parse_anchor s,
            tail = filter (\<lambda>x. x \<noteq> [] \<and> x \<noteq> [DOT]) (split_on SEP s)\<rparr>"

text \<open>\<open>p / s\<close>: an absolute \<open>s\<close> replaces \<open>p\<close>, otherwise the components of \<open>s\<close> follow those of \<open>p\<close>.\<close>

definition joinpath :: "path \<Rightarrow> ustring \<Rightarrow> path" where
  "joinpath p s =
     (if startswith s [SEP] then Path s else p\<lparr>tail := tail p @ tail (Path s)\<rparr>)"

text \<open>\<open>str(p)\<close>\<close>

definition path_str :: "path \<Rightarrow> ustring" where
  "path_str p =
     (if anchor p = [] \<and> tail p = [] then [DOT] else anchor p @ join [SEP] (tail p))"

text \<open>\<open>p.parts\<close>\<close>

definition path_parts :: "path \<Rightarrow> ustring list" where
  "path_parts p = (if anchor p = [] then [] else [anchor p]) @ tail p"

text \<open>\<open>p.name\<close>\<close>

definition path_name :: "path \<Rightarrow> ustring" where
  "path_name p = (if tail p = [] then [] else last (tail p))"

text \<open>
  \<open>p.suffix\<close>: the name from its last dot on, when that dot is neither the first nor the
  last character of the name.
\<close>

definition path_suffix :: "path \<Rightarrow> ustring" where
  "path_suffix p =
     (let n = path_name p; i = rfind n DOT
      in if 0 < i \<and> i < int (length n) - 1 then drop (nat i) n else [])"

text \<open>\<open>os.path.join(a, b)\<close>\<close>

definition os_path_join :: "ustring \<Rightarrow> ustring \<Rightarrow> ustring" where
  "os_path_join a b =
     (if startswith b [SEP] then b
      else if a = [] \<or> last a = SEP then a @ b
      else a @ [SEP] @ b)"

text \<open>\<open>os.path.basename(s)\<close>: what follows the last separator.\<close>

definition basename :: "ustring \<Rightarrow> ustring" where
  "basename s = drop (nat (rfind s SEP + 1)) s"

section \<open>The file system and its errors\<close>

text \<open>
  \<open>path.stat()\<close> gives the kind and the size (a Python \<open>int\<close>) of what the path points to,
  or raises. Its errors are of two sorts. \<open>StatAbsent\<close> stands for those that
  \<open>path.is_file()\<close> answers with \<open>False\<close>: \<open>ENOENT\<close>, \<open>ENOTDIR\<close>, \<open>EBADF\<close>, \<open>ELOOP\<close> and
  \<open>ValueError\<close>. \<open>StatFailed\<close> stands for every other \<open>OSError\<close> (\<open>EACCES\<close>,
  \<open>ENAMETOOLONG\<close>, ...), which \<open>path.is_file()\<close> raises again.
\<close>

datatype file_kind = Regular | Directory | Special

datatype stat_result = StatOk file_kind int | StatAbsent | StatFailed

type_synonym filesystem = "path \<Rightarrow> stat_result"

datatype exn = OSError

definition is_file :: "filesystem \<Rightarrow> path \<Rightarrow> exn + bool" where
  "is_file fs p =
     (case fs p of
        StatOk k sz \<Rightarrow> Inr (k = Regular)
      | StatAbsent \<Rightarrow> Inr False
      | StatFailed \<Rightarrow> Inl OSError)"

section \<open>Configuration\<close>

definition IGNORED_DIRS :: "ustring set" where
  "IGNORED_DIRS = S `
     {''.git'', ''__pycache__'', ''node_modules'', ''venv'', ''.venv'',
      ''.idea'', ''.vscode'', ''build'', ''dist'', ''docs'',
      ''.parcel-cache'', ''.cache'', ''.next'', ''.husky'', ''.pnpm-store'',
      ''coverage'', ''tmp'', ''temp'', ''.terraform''}"

definition IGNORED_EXTENSIONS :: "ustring set" where
  "IGNORED_EXTENSIONS = S `
     {''.pyc'', ''.pyo'', ''.pyd'', ''.so'', ''.dll'', ''.exe'',
      ''.png'', ''.jpg'', ''.jpeg'', ''.gif'', ''.bmp'', ''.tiff'', ''.ico'',
      ''.svg'', ''.webp'', ''.avif'',
      ''.zip'', ''.tar'', ''.gz'', ''.rar'', ''.7z'',
      ''.pdf'',
      ''.doc'', ''.docx'', ''.xls'', ''.xlsx'', ''.ppt'', ''.pptx'',
      ''.db'', ''.sqlite'', ''.sqlite3'',
      ''.lock'', ''.log'',
      ''.parquet'', ''.h5'', ''.hdf5'', ''.pt'', ''.onnx'', ''.tif'', ''.tiff'',
      ''.shp'', ''.dbf'', ''.nc''}"

definition IGNORED_FILENAMES :: "ustring set" where
  "IGNORED_FILENAMES = S `
     {''yarn.lock'', ''pnpm-lock.yaml'', ''package-lock.json'',
      ''.DS_Store'', ''.env'', ''.env.local'', ''.env.production'', ''.env.development'',
      ''.python-version'', ''.tool-versions''}"

definition MAX_FILE_SIZE_BYTES :: int where
  "MAX_FILE_SIZE_BYTES = 2 * 1024 * 1024"

definition ALLOWED_CODE_EXTENSIONS :: "ustring set" where
  "ALLOWED_CODE_EXTENSIONS = S `
     {''.py'', ''.ts'', ''.tsx'', ''.js'', ''.jsx'', ''.java'', ''.kt'', ''.go'',
      ''.rs'', ''.rb'', ''.php'', ''.c'', ''.cc'', ''.cpp'', ''.h'', ''.hpp'',
      ''.cs'', ''.sql'', ''.yml'', ''.yaml'', ''.toml'', ''.ini'', ''.cfg'',
      ''.prisma'', ''.graphql'', ''.gql'', ''.md''}"

definition SCHEMA_HINT_DIRS :: "ustring set" where
  "SCHEMA_HINT_DIRS = S `
     {''prisma'', ''migrations'', ''migration'', ''db'', ''database'',
      ''sql'', ''schema'', ''alembic'', ''migrate'', ''migrations_sql'', ''liquibase'',
      ''flyway''}"

text \<open>
  \<open>SCHEMA_HINT_NAMES\<close> is the one table the code iterates over with a loop that returns
  early. A Python set has no fixed iteration order, so the loop below takes the order as
  a list; this is the order in which the source writes the set.
\<close>

definition SCHEMA_HINT_NAMES :: "ustring list" where
  "SCHEMA_HINT_NAMES = map S
     [''schema.prisma'', ''schema.sql'', ''init.sql'', ''migration.sql'',
      ''migration'', ''migrations'', ''entities'', ''models'', ''alembic.ini'',
      ''seeder'', ''seed.sql'', ''DDL.sql'']"

definition BULK_DATA_EXTENSIONS :: "ustring set" where
  "BULK_DATA_EXTENSIONS = S ` {''.csv'', ''.json'', ''.jsonl'', ''.ndjson'', ''.geojson''}"

definition ORM_SEGMENTS :: "ustring set" where
  "ORM_SEGMENTS = S ` {''entities'', ''entity'', ''models'', ''model''}"

definition ORM_EXTENSIONS :: "ustring set" where
  "ORM_EXTENSIONS = S ` {''.ts'', ''.js'', ''.tsx'', ''.jsx'', ''.py'', ''.rb'', ''.java'', ''.kt''}"

section \<open>The classifier\<close>

text \<open>The loop \<open>for key in SCHEMA_HINT_NAMES: if key in name: return True\<close>.\<close>

fun scan_hint_names :: "ustring list \<Rightarrow> ustring \<Rightarrow> bool" where
  "scan_hint_names [] name = False"
| "scan_hint_names (key # keys) name =
     (if contains name key then True else scan_hint_names keys name)"

definition looks_like_schema_file_in ::
  "(ustring \<Rightarrow> ustring) \<Rightarrow> ustring list \<Rightarrow> path \<Rightarrow> bool"
where
  "looks_like_schema_file_in ul hint_names p =
     (let name = lower ul (path_name p);
          parts = set (map (lower ul) (path_parts p))
      in if parts \<inter> SCHEMA_HINT_DIRS \<noteq> {} then True
         else if scan_hint_names hint_names name then True
         else if lower ul (path_suffix p) = S ''.sql'' then True
         else if lower ul (path_suffix p) = S ''.prisma'' then True
         else if (\<exists>seg \<in> ORM_SEGMENTS. seg \<in> parts)
           then lower ul (path_suffix p) \<in> ORM_EXTENSIONS
         else False)"

abbreviation looks_like_schema_file :: "(ustring \<Rightarrow> ustring) \<Rightarrow> path \<Rightarrow> bool" where
  "looks_like_schema_file ul \<equiv> looks_like_schema_file_in ul SCHEMA_HINT_NAMES"

text \<open>\<open>is_large\<close> catches every exception of \<open>path.stat()\<close>.\<close>

definition is_large :: "filesystem \<Rightarrow> path \<Rightarrow> bool" where
  "is_large fs p =
     (case fs p of
        StatOk k sz \<Rightarrow> sz > MAX_FILE_SIZE_BYTES
      | StatAbsent \<Rightarrow> False
      | StatFailed \<Rightarrow> False)"

text \<open>
  \<open>is_ignored\<close> calls \<open>path.is_file()\<close> twice, outside any \<open>try\<close>: what that call raises,
  \<open>is_ignored\<close> raises.
\<close>

definition is_ignored_in ::
  "(ustring \<Rightarrow> ustring) \<Rightarrow> ustring list \<Rightarrow> filesystem \<Rightarrow> path \<Rightarrow> ustring \<Rightarrow> exn + bool"
where
  "is_ignored_in ul hint_names fs p output_filename =
     (if path_name p = output_filename then Inr True
      else if path_name p \<in> IGNORED_FILENAMES then Inr True
      else if (\<exists>part \<in> set (path_parts p). part \<in> IGNORED_DIRS) then Inr True
      else
        (case is_file fs p of
           Inl e \<Rightarrow> Inl e
         | Inr file1 \<Rightarrow>
             if file1 \<and> is_large fs p then Inr True
             else if lower ul (path_suffix p) \<in> BULK_DATA_EXTENSIONS
                     \<and> (\<not> looks_like_schema_file_in ul hint_names p \<or> is_large fs p)
               then Inr True
             else
               (case is_file fs p of
                  Inl e \<Rightarrow> Inl e
                | Inr file2 \<Rightarrow>
                    if file2 \<and> looks_like_schema_file_in ul hint_names p then Inr False
                    else if file2 \<and> lower ul (path_suffix p) \<notin> ALLOWED_CODE_EXTENSIONS
                      then Inr True
                    else if lower ul (path_suffix p) \<in> IGNORED_EXTENSIONS then Inr True
                    else Inr False)))"

abbreviation is_ignored ::
  "(ustring \<Rightarrow> ustring) \<Rightarrow> filesystem \<Rightarrow> path \<Rightarrow> ustring \<Rightarrow> exn + bool"
where
  "is_ignored ul \<equiv> is_ignored_in ul SCHEMA_HINT_NAMES"

section \<open>The tree builder\<close>

text \<open>
  What \<open>os.walk\<close> finds below the root: a directory that can be listed has the names of
  its non-directory entries and its subdirectories, each in the order the system yields
  them; \<open>Unlisted\<close> is a subdirectory \<open>os.walk\<close> names but does not enter (a symbolic link,
  or a directory whose listing fails).
\<close>

datatype dirtree = Unlisted | Listing "ustring list" "(ustring \<times> dirtree) list"

text \<open>
  \<open>os.walk(topdir, topdown=True)\<close> as the list of the triples it yields: the directory, the
  names of all its subdirectories, the names of its other entries. The body of the loop
  edits the list of subdirectories before the walk goes on, and the walk enters those
  the body left: \<open>keep root d\<close> says whether the body leaves \<open>d\<close>. When the body raises, the
  loop ends there, and what the walk would yield afterwards is not used.
\<close>

fun os_walk ::
  "(ustring \<Rightarrow> ustring \<Rightarrow> bool) \<Rightarrow> ustring \<Rightarrow> dirtree
   \<Rightarrow> (ustring \<times> ustring list \<times> ustring list) list"
where
  "os_walk keep topdir Unlisted = []"
| "os_walk keep topdir (Listing files subdirs) =
     (topdir, map fst subdirs, files)
     # concat (map (\<lambda>(d, t). os_walk keep (os_path_join topdir d) t)
                (filter (\<lambda>(d, t). keep topdir d) subdirs))"

text \<open>The marks: U+1F4C2, U+1F4C4, and U+1F5C4 U+FE0F.\<close>

definition FOLDER_MARK :: ustring where
  "FOLDER_MARK = [0x1F4C2]"

definition FILE_MARK :: ustring where
  "FILE_MARK = [0x1F4C4]"

definition SCHEMA_MARK :: ustring where
  "SCHEMA_MARK = [0x1F5C4, 0xFE0F]"

record walk_state =
  tree_lines :: "ustring list"
  files_to_dump :: "path list"
  schema_files :: "path list"

text \<open>A loop whose body may raise: the first exception ends it.\<close>

fun fold_exn :: "('s \<Rightarrow> 'a \<Rightarrow> exn + 's) \<Rightarrow> 's \<Rightarrow> 'a list \<Rightarrow> exn + 's" where
  "fold_exn f s [] = Inr s"
| "fold_exn f s (x # xs) =
     (case f s x of Inl e \<Rightarrow> Inl e | Inr s' \<Rightarrow> fold_exn f s' xs)"

text \<open>\<open>[d for d in dirs if not is_ignored(Path(root) / d, output_filename)]\<close>\<close>

fun not_ignored_dirs ::
  "(ustring \<Rightarrow> ustring) \<Rightarrow> ustring list \<Rightarrow> filesystem \<Rightarrow> ustring \<Rightarrow> ustring
   \<Rightarrow> ustring list \<Rightarrow> exn + ustring list"
where
  "not_ignored_dirs ul hint_names fs output_filename root [] = Inr []"
| "not_ignored_dirs ul hint_names fs output_filename root (d # ds) =
     (case is_ignored_in ul hint_names fs (joinpath (Path root) d) output_filename of
        Inl e \<Rightarrow> Inl e
      | Inr ignored \<Rightarrow>
          (case not_ignored_dirs ul hint_names fs output_filename root ds of
             Inl e \<Rightarrow> Inl e
           | Inr ds' \<Rightarrow> Inr (if ignored then ds' else d # ds')))"

text \<open>The body of \<open>for f in sorted(files)\<close>.\<close>

definition visit_file ::
  "(ustring \<Rightarrow> ustring) \<Rightarrow> ustring list \<Rightarrow> filesystem \<Rightarrow> ustring \<Rightarrow> ustring \<Rightarrow> ustring
   \<Rightarrow> walk_state \<Rightarrow> ustring \<Rightarrow> exn + walk_state"
where
  "visit_file ul hint_names fs output_filename root sub_indent st f =
     (let file_path = joinpath (Path root) f
      in case is_ignored_in ul hint_names fs file_path output_filename of
           Inl e \<Rightarrow> Inl e
         | Inr ignored \<Rightarrow>
             if \<not> ignored
             then (if looks_like_schema_file_in ul hint_names file_path
                   then Inr (st\<lparr>schema_files := schema_files st @ [file_path],
                               tree_lines := tree_lines st
                                 @ [sub_indent @ SCHEMA_MARK @ [SPACE] @ f],
                               files_to_dump := files_to_dump st @ [file_path]\<rparr>)
                   else Inr (st\<lparr>tree_lines := tree_lines st
                                 @ [sub_indent @ FILE_MARK @ [SPACE] @ f],
                               files_to_dump := files_to_dump st @ [file_path]\<rparr>))
             else Inr st)"

text \<open>The level of a directory, as the code computes it.\<close>

definition level_of :: "ustring \<Rightarrow> ustring \<Rightarrow> nat" where
  "level_of root_str root = count_char (remove_all root root_str) SEP"

text \<open>
  The line of the directory itself: \<open>level\<close>, \<open>indent\<close> and the \<open>if\<close> that appends to
  \<open>tree_lines\<close>.
\<close>

definition add_dir_line :: "path \<Rightarrow> ustring \<Rightarrow> walk_state \<Rightarrow> walk_state" where
  "add_dir_line root_path root st =
     (let level = level_of (path_str root_path) root;
          indent = replicate (4 * level) SPACE;
          dir_name = basename root
      in if (level > 0 \<or> root = path_str root_path) \<and> dir_name \<noteq> []
         then st\<lparr>tree_lines := tree_lines st
                @ [indent @ FOLDER_MARK @ [SPACE] @ dir_name @ [SEP]]\<rparr>
         else st)"

text \<open>
  The body of \<open>for root, dirs, files in os.walk(...)\<close>: the edit of \<open>dirs\<close>, the line of the
  directory, the loop over the files. \<open>sorted(files)\<close> orders the names by their code
  points.
\<close>

definition visit_dir ::
  "(ustring \<Rightarrow> ustring) \<Rightarrow> ustring list \<Rightarrow> filesystem \<Rightarrow> path \<Rightarrow> ustring \<Rightarrow> walk_state
   \<Rightarrow> ustring \<times> ustring list \<times> ustring list \<Rightarrow> exn + walk_state"
where
  "visit_dir ul hint_names fs root_path output_filename st triple =
     (case triple of (root, dirs, files) \<Rightarrow>
        (case not_ignored_dirs ul hint_names fs output_filename root dirs of
           Inl e \<Rightarrow> Inl e
         | Inr dirs' \<Rightarrow>
             let level = level_of (path_str root_path) root;
                 sub_indent = replicate (4 * (level + 1)) SPACE
             in fold_exn (visit_file ul hint_names fs output_filename root sub_indent)
                  (add_dir_line root_path root st) (sort files)))"

text \<open>
  The triples of the walk: it enters the subdirectories for which \<open>is_ignored\<close> returns
  \<open>False\<close>, those the body leaves in \<open>dirs\<close>.
\<close>

definition pruned_walk ::
  "(ustring \<Rightarrow> ustring) \<Rightarrow> ustring list \<Rightarrow> filesystem \<Rightarrow> dirtree \<Rightarrow> path \<Rightarrow> ustring
   \<Rightarrow> (ustring \<times> ustring list \<times> ustring list) list"
where
  "pruned_walk ul hint_names fs tree root_path output_filename =
     os_walk
       (\<lambda>root d. is_ignored_in ul hint_names fs (joinpath (Path root) d) output_filename
                  = Inr False)
       (path_str root_path) tree"

text \<open>The whole loop: the three lists when the walk is over, or the exception.\<close>

definition walk_loop ::
  "(ustring \<Rightarrow> ustring) \<Rightarrow> ustring list \<Rightarrow> filesystem \<Rightarrow> dirtree \<Rightarrow> path \<Rightarrow> ustring
   \<Rightarrow> exn + walk_state"
where
  "walk_loop ul hint_names fs tree root_path output_filename =
     fold_exn (visit_dir ul hint_names fs root_path output_filename)
       \<lparr>tree_lines = [], files_to_dump = [], schema_files = []\<rparr>
       (pruned_walk ul hint_names fs tree root_path output_filename)"

definition generate_tree_in ::
  "(ustring \<Rightarrow> ustring) \<Rightarrow> ustring list \<Rightarrow> filesystem \<Rightarrow> dirtree \<Rightarrow> path \<Rightarrow> ustring
   \<Rightarrow> exn + (ustring \<times> path list \<times> path list)"
where
  "generate_tree_in ul hint_names fs tree root_path output_filename =
     (case walk_loop ul hint_names fs tree root_path output_filename of
        Inl e \<Rightarrow> Inl e
      | Inr st \<Rightarrow> Inr (join [NEWLINE] (tree_lines st), files_to_dump st, schema_files st))"

abbreviation generate_tree ::
  "(ustring \<Rightarrow> ustring) \<Rightarrow> filesystem \<Rightarrow> dirtree \<Rightarrow> path \<Rightarrow> ustring
   \<Rightarrow> exn + (ustring \<times> path list \<times> path list)"
where
  "generate_tree ul \<equiv> generate_tree_in ul SCHEMA_HINT_NAMES"

section \<open>Notions used to state the properties\<close>

text \<open>
  The names a directory listing yields: one path component each, never empty, never
  \<open>'.'\<close> or \<open>'..'\<close>.
\<close>

definition valid_name :: "ustring \<Rightarrow> bool" where
  "valid_name f = (f \<noteq> [] \<and> SEP \<notin> set f \<and> f \<noteq> [DOT] \<and> f \<noteq> [DOT, DOT])"

fun wf_tree :: "dirtree \<Rightarrow> bool" where
  "wf_tree Unlisted = True"
| "wf_tree (Listing files subdirs) =
     ((\<forall>f \<in> set files. valid_name f)
      \<and> (\<forall>x \<in> set subdirs. valid_name (fst x) \<and> wf_tree (snd x)))"

text \<open>No listed name holds a newline.\<close>

fun one_line_names :: "dirtree \<Rightarrow> bool" where
  "one_line_names Unlisted = True"
| "one_line_names (Listing files subdirs) =
     ((\<forall>f \<in> set files. NEWLINE \<notin> set f)
      \<and> (\<forall>x \<in> set subdirs. NEWLINE \<notin> set (fst x) \<and> one_line_names (snd x)))"

text \<open>A tree line without its indentation.\<close>

definition strip_indent :: "ustring \<Rightarrow> ustring" where
  "strip_indent l = dropWhile (\<lambda>c. c = SPACE) l"

text \<open>A tree line is a file line when its first mark is one of the two file marks.\<close>

definition is_file_line :: "ustring \<Rightarrow> bool" where
  "is_file_line l =
     (startswith (strip_indent l) FILE_MARK \<or> startswith (strip_indent l) SCHEMA_MARK)"

text \<open>What the tree shows for a kept file: its mark and its name.\<close>

definition file_entry :: "(ustring \<Rightarrow> ustring) \<Rightarrow> path \<Rightarrow> ustring" where
  "file_entry ul p =
     (if looks_like_schema_file ul p then SCHEMA_MARK else FILE_MARK) @ [SPACE] @ path_name p"

section \<open>Examples\<close>

text \<open>
  A lowering for the examples: ASCII letters to lower case, every other code point as it
  is. The example paths are ASCII, apart from one name that holds a file mark, a
  character without case.
\<close>

definition letters_lower :: "ustring \<Rightarrow> ustring" where
  "letters_lower s = map ascii_lower s"

text \<open>Every path is a regular file of 100 bytes.\<close>

definition small_files :: filesystem where
  "small_files p = StatOk Regular 100"

text \<open>Every path is a regular file of 3 MiB.\<close>

definition big_files :: filesystem where
  "big_files p = StatOk Regular (3 * 1024 * 1024)"

text \<open>\<open>stat\<close> fails on every path with an error that \<open>is_file\<close> raises again.\<close>

definition no_access :: filesystem where
  "no_access p = StatFailed"

text \<open>No path exists.\<close>

definition nothing_there :: filesystem where
  "nothing_there p = StatAbsent"

text \<open>A file system given by the \<open>stat\<close> results of its paths; no other path exists.\<close>

definition stat_table :: "(ustring \<times> stat_result) list \<Rightarrow> filesystem" where
  "stat_table entries p =
     (case map_of (map (\<lambda>(s, r). (Path s, r)) entries) p of
        Some r \<Rightarrow> r
      | None \<Rightarrow> StatAbsent)"

text \<open>
  The project of the end-to-end scenario: \<open>image.png\<close> and \<open>data.json\<close> at the root,
  \<open>src/app.py\<close>, \<open>node_modules/pkg/index.js\<close> and \<open>migrations/001_init.sql\<close>.
\<close>

definition demo_tree :: dirtree where
  "demo_tree =
     Listing [S ''image.png'', S ''data.json'']
       [(S ''src'', Listing [S ''app.py''] []),
        (S ''node_modules'', Listing [] [(S ''pkg'', Listing [S ''index.js''] [])]),
        (S ''migrations'', Listing [S ''001_init.sql''] [])]"

definition demo_fs :: filesystem where
  "demo_fs =
     stat_table
       [(S ''proj'', StatOk Directory 4096),
        (S ''proj/image.png'', StatOk Regular 5000),
        (S ''proj/data.json'', StatOk Regular 100),
        (S ''proj/src'', StatOk Directory 4096),
        (S ''proj/src/app.py'', StatOk Regular 20),
        (S ''proj/node_modules'', StatOk Directory 4096),
        (S ''proj/node_modules/pkg'', StatOk Directory 4096),
        (S ''proj/node_modules/pkg/index.js'', StatOk Regular 300),
        (S ''proj/migrations'', StatOk Directory 4096),
        (S ''proj/migrations/001_init.sql'', StatOk Regular 10)]"

text \<open>
  A project at \<open>app/src\<close> that holds a directory \<open>app\<close> with a directory \<open>src\<close> of its own:
  \<open>app/src/main.py\<close> and \<open>app/src/app/src/util.py\<close>.
\<close>

definition nested_tree :: dirtree where
  "nested_tree =
     Listing [S ''main.py'']
       [(S ''app'', Listing [] [(S ''src'', Listing [S ''util.py''] [])])]"

definition nested_fs :: filesystem where
  "nested_fs =
     stat_table
       [(S ''app/src'', StatOk Directory 4096),
        (S ''app/src/main.py'', StatOk Regular 50),
        (S ''app/src/app'', StatOk Directory 4096),
        (S ''app/src/app/src'', StatOk Directory 4096),
        (S ''app/src/app/src/util.py'', StatOk Regular 60)]"

text \<open>A project \<open>tool\<close> with two files without an extension beside \<open>main.py\<close>.\<close>

definition tool_tree :: dirtree where
  "tool_tree = Listing [S ''main.py'', S ''Makefile'', S ''LICENSE''] []"

definition tool_fs :: filesystem where
  "tool_fs =
     stat_table
       [(S ''tool'', StatOk Directory 4096),
        (S ''tool/main.py'', StatOk Regular 800),
        (S ''tool/Makefile'', StatOk Regular 120),
        (S ''tool/LICENSE'', StatOk Regular 1070)]"

text \<open>
  A project \<open>proj\<close> with one file, whose name holds a newline followed by a file mark:
  \<open>x\<close>, newline, the mark U+1F4C4, \<open> y.py\<close>.
\<close>

definition two_line_name :: ustring where
  "two_line_name = S ''x'' @ [NEWLINE] @ FILE_MARK @ S '' y.py''"

definition two_line_tree :: dirtree where
  "two_line_tree = Listing [two_line_name] []"

definition two_line_fs :: filesystem where
  "two_line_fs =
     stat_table
       [(S ''proj'', StatOk Directory 4096),
        (S ''proj/'' @ two_line_name, StatOk Regular 30)]"

section \<open>Properties of the classifier\<close>

lemma S_simps: "S [] = []" "S (c # cs) = of_char c # S cs"
  by (simp_all add: S_def)

lemma lower_empty: "lower ul [] = []"
  by (simp add: lower_def is_ascii_def)

lemma ignored_filename_suffix:
  "path_name p \<in> IGNORED_FILENAMES \<Longrightarrow>
   lower ul (path_suffix p) \<noteq> S ''.sql'' \<and> lower ul (path_suffix p) \<noteq> S ''.prisma''"
  unfolding IGNORED_FILENAMES_def path_suffix_def
  by (auto simp: lower_def is_ascii_def ascii_lower_def S_simps)

lemma sql_prisma_not_ignored_extensions:
  "S ''.sql'' \<notin> IGNORED_EXTENSIONS" "S ''.prisma'' \<notin> IGNORED_EXTENSIONS"
  by (simp_all add: IGNORED_EXTENSIONS_def S_simps)

lemma sql_prisma_not_bulk:
  "S ''.sql'' \<notin> BULK_DATA_EXTENSIONS" "S ''.prisma'' \<notin> BULK_DATA_EXTENSIONS"
  by (simp_all add: BULK_DATA_EXTENSIONS_def S_simps)

lemma sql_prisma_schema_like:
  assumes "lower ul (path_suffix p) = S ''.sql'' \<or> lower ul (path_suffix p) = S ''.prisma''"
  shows "looks_like_schema_file_in ul hint_names p"
  using assms by (auto simp: looks_like_schema_file_in_def Let_def)

lemma not_large_small_files: "\<not> is_large small_files p"
  by (simp add: is_large_def small_files_def MAX_FILE_SIZE_BYTES_def)

lemma is_file_small_files: "is_file small_files p = Inr True"
  by (simp add: is_file_def small_files_def)

lemma large_big_files: "is_large big_files p"
  by (simp add: is_large_def big_files_def MAX_FILE_SIZE_BYTES_def)

lemma is_file_big_files: "is_file big_files p = Inr True"
  by (simp add: is_file_def big_files_def)

lemma is_file_cases:
  "fs p \<noteq> StatFailed \<Longrightarrow> \<exists>b. is_file fs p = Inr b"
  by (cases "fs p") (auto simp: is_file_def)

text \<open>
  C1, as amended. A path whose lowercased extension is \<open>.sql\<close> or \<open>.prisma\<close> is
  schema-like. \<open>is_ignored\<close> returns \<open>False\<close> for it provided that its name is not the
  output file name, that none of its segments is an ignored directory name, that it is not
  a regular file larger than the size threshold, and that \<open>stat\<close> does not fail on it with an
  error that \<open>is_file\<close> raises again. No further condition is needed: no ignored file name
  has such an extension, the extension is not a bulk-data one, and a path that is not a
  file passes the last check because neither extension is in the ignored-extension set.
\<close>

theorem sql_prisma_kept:
  assumes "lower ul (path_suffix p) = S ''.sql'' \<or> lower ul (path_suffix p) = S ''.prisma''"
  shows "looks_like_schema_file ul p \<and>
    (path_name p \<noteq> output_filename
       \<and> (\<forall>part \<in> set (path_parts p). part \<notin> IGNORED_DIRS)
       \<and> fs p \<noteq> StatFailed
       \<and> \<not> (is_file fs p = Inr True \<and> is_large fs p)
     \<longrightarrow> is_ignored ul fs p output_filename = Inr False)"
proof -
  have s: "looks_like_schema_file ul p"
    using assms by (rule sql_prisma_schema_like)
  have n: "path_name p \<notin> IGNORED_FILENAMES"
    using ignored_filename_suffix [of p ul] assms by auto
  have "is_ignored ul fs p output_filename = Inr False"
    if "path_name p \<noteq> output_filename" "\<forall>part \<in> set (path_parts p). part \<notin> IGNORED_DIRS"
      "fs p \<noteq> StatFailed" "\<not> (is_file fs p = Inr True \<and> is_large fs p)"
  proof -
    from that(3) obtain b where b: "is_file fs p = Inr b"
      using is_file_cases by blast
    show ?thesis
      using s n assms that b sql_prisma_not_ignored_extensions sql_prisma_not_bulk
      by (auto simp: is_ignored_in_def)
  qed
  with s show ?thesis by blast
qed

lemma report_sql_path:
  "path_parts (Path (S ''src/Report.SQL'')) = [S ''src'', S ''Report.SQL'']"
  "path_name (Path (S ''src/Report.SQL'')) = S ''Report.SQL''"
  "lower letters_lower (path_suffix (Path (S ''src/Report.SQL''))) = S ''.sql''"
  by code_simp+

theorem sql_prisma_kept_witness:
  "lower letters_lower (path_suffix (Path (S ''src/Report.SQL''))) = S ''.sql'' \<and>
   looks_like_schema_file letters_lower (Path (S ''src/Report.SQL'')) \<and>
   is_ignored letters_lower small_files (Path (S ''src/Report.SQL'')) (S ''project_dump.txt'')
     = Inr False"
proof -
  have "\<forall>part \<in> set (path_parts (Path (S ''src/Report.SQL''))). part \<notin> IGNORED_DIRS"
    unfolding report_sql_path by code_simp
  moreover have "path_name (Path (S ''src/Report.SQL'')) \<noteq> S ''project_dump.txt''"
    by code_simp
  moreover have "small_files (Path (S ''src/Report.SQL'')) \<noteq> StatFailed"
    by (simp add: small_files_def)
  ultimately show ?thesis
    using sql_prisma_kept [of letters_lower "Path (S ''src/Report.SQL'')"
        "S ''project_dump.txt''" small_files]
      not_large_small_files [of "Path (S ''src/Report.SQL'')"]
    by (simp add: report_sql_path)
qed

text \<open>
  C1 as stated fails: a \<open>schema.sql\<close> of 3 MiB has the extension \<open>.sql\<close> and is ignored,
  because the size check comes before the schema-like exemption.
\<close>

theorem sql_large_ignored_counterexample:
  "lower letters_lower (path_suffix (Path (S ''schema.sql''))) = S ''.sql'' \<and>
   is_ignored letters_lower big_files (Path (S ''schema.sql'')) (S ''project_dump.txt'')
     = Inr True"
  by code_simp

text \<open>
  C2. A regular file whose size exceeds \<open>2 * 1024 * 1024\<close> bytes is ignored, whatever its
  path: the size check does not ask whether the file is schema-like.
\<close>

theorem large_file_ignored:
  "fs p = StatOk Regular sz \<Longrightarrow> 2 * 1024 * 1024 < sz \<Longrightarrow>
   is_ignored ul fs p output_filename = Inr True"
  by (simp add: is_ignored_in_def is_file_def is_large_def MAX_FILE_SIZE_BYTES_def)

theorem large_file_ignored_witness:
  "big_files (Path (S ''migrations/001_init.sql'')) = StatOk Regular 3145728 \<and>
   (2 * 1024 * 1024 < (3145728 :: int)) \<and>
   looks_like_schema_file letters_lower (Path (S ''migrations/001_init.sql'')) \<and>
   is_ignored letters_lower big_files (Path (S ''migrations/001_init.sql''))
     (S ''project_dump.txt'') = Inr True"
proof -
  have b: "big_files (Path (S ''migrations/001_init.sql'')) = StatOk Regular 3145728"
    by (simp add: big_files_def)
  have l: "2 * 1024 * 1024 < (3145728 :: int)"
    by simp
  have "looks_like_schema_file letters_lower (Path (S ''migrations/001_init.sql''))"
    by code_simp
  then show ?thesis
    using b l
      large_file_ignored [of big_files "Path (S ''migrations/001_init.sql'')" 3145728
        letters_lower "S ''project_dump.txt''"]
    by simp
qed

text \<open>
  Where none of the first three rules applies, \<open>is_ignored\<close> reaches \<open>path.is_file()\<close>, and
  raises what that call raises.
\<close>

lemma is_ignored_raises:
  assumes "fs p = StatFailed" "path_name p \<noteq> output_filename"
    "path_name p \<notin> IGNORED_FILENAMES" "\<forall>part \<in> set (path_parts p). part \<notin> IGNORED_DIRS"
  shows "is_ignored_in ul hint_names fs p output_filename = Inl OSError"
  using assms by (simp add: is_ignored_in_def is_file_def)

text \<open>
  C3 does not hold of the code. For a path whose lowercased extension is one of \<open>.csv\<close>,
  \<open>.json\<close>, \<open>.jsonl\<close>, \<open>.ndjson\<close>, \<open>.geojson\<close> and that is not both schema-like and not
  large, \<open>is_ignored\<close> returns \<open>True\<close> as long as \<open>is_file\<close> does not raise. Where \<open>stat\<close>
  fails with an error that \<open>is_file\<close> raises again and none of the first three rules
  applies, \<open>is_ignored\<close> raises instead of returning \<open>True\<close>. The witness has the \<open>data.json\<close>
  of 100 bytes, ignored, and a \<open>data.json\<close> that cannot be examined, on which \<open>is_ignored\<close>
  raises.
\<close>

theorem bulk_data_ignored:
  assumes "lower ul (path_suffix p) \<in> S ` {''.csv'', ''.json'', ''.jsonl'', ''.ndjson'', ''.geojson''}"
    and "\<not> (looks_like_schema_file ul p \<and> \<not> is_large fs p)"
  shows "(fs p \<noteq> StatFailed \<longrightarrow> is_ignored ul fs p output_filename = Inr True)
    \<and> (fs p = StatFailed \<and> path_name p \<noteq> output_filename
         \<and> path_name p \<notin> IGNORED_FILENAMES
         \<and> (\<forall>part \<in> set (path_parts p). part \<notin> IGNORED_DIRS)
       \<longrightarrow> is_ignored ul fs p output_filename = Inl OSError)"
proof -
  have "is_ignored ul fs p output_filename = Inr True" if "fs p \<noteq> StatFailed"
  proof -
    from that obtain b where "is_file fs p = Inr b"
      using is_file_cases by blast
    then show ?thesis
      using assms by (auto simp: is_ignored_in_def BULK_DATA_EXTENSIONS_def)
  qed
  then show ?thesis
    using is_ignored_raises [of fs p output_filename ul SCHEMA_HINT_NAMES] by blast
qed

lemma data_json_path:
  "lower letters_lower (path_suffix (Path (S ''data.json''))) = S ''.json''"
  "\<not> looks_like_schema_file letters_lower (Path (S ''data.json''))"
  "path_name (Path (S ''data.json'')) \<noteq> S ''project_dump.txt''"
  "path_name (Path (S ''data.json'')) \<notin> IGNORED_FILENAMES"
  "\<forall>part \<in> set (path_parts (Path (S ''data.json''))). part \<notin> IGNORED_DIRS"
  by code_simp+

theorem bulk_data_ignored_witness:
  "lower letters_lower (path_suffix (Path (S ''data.json''))) = S ''.json''
   \<and> \<not> looks_like_schema_file letters_lower (Path (S ''data.json''))
   \<and> small_files (Path (S ''data.json'')) = StatOk Regular 100
   \<and> is_ignored letters_lower small_files (Path (S ''data.json'')) (S ''project_dump.txt'')
       = Inr True
   \<and> no_access (Path (S ''data.json'')) = StatFailed
   \<and> is_ignored letters_lower no_access (Path (S ''data.json'')) (S ''project_dump.txt'')
       = Inl OSError"
proof -
  have j: "lower letters_lower (path_suffix (Path (S ''data.json'')))
      \<in> S ` {''.csv'', ''.json'', ''.jsonl'', ''.ndjson'', ''.geojson''}"
    unfolding data_json_path by blast
  have "is_ignored letters_lower small_files (Path (S ''data.json'')) (S ''project_dump.txt'')
       = Inr True"
    using bulk_data_ignored [OF j, of small_files "S ''project_dump.txt''"] data_json_path
    by (simp add: small_files_def)
  moreover have "is_ignored letters_lower no_access (Path (S ''data.json''))
      (S ''project_dump.txt'') = Inl OSError"
    using bulk_data_ignored [OF j, of no_access "S ''project_dump.txt''"] data_json_path
    by (simp add: no_access_def)
  ultimately show ?thesis
    using data_json_path by (simp add: small_files_def no_access_def)
qed

text \<open>
  C6, as amended. For a path with a segment that is, in lower case, one of \<open>entities\<close>,
  \<open>entity\<close>, \<open>models\<close>, \<open>model\<close>: if its lowercased extension is one of \<open>.ts\<close>, \<open>.js\<close>,
  \<open>.tsx\<close>, \<open>.jsx\<close>, \<open>.py\<close>, \<open>.rb\<close>, \<open>.java\<close>, \<open>.kt\<close>, the path is schema-like. If it is
  not, the ORM rule does not make the path schema-like: a file is then not schema-like and
  is ignored when its extension is not code-like and no other schema hint applies to it
  (no segment is a schema-hint directory name, and its lowercased name contains no
  schema-hint name). The witness has \<open>models/user.py\<close>, kept and schema-like, and
  \<open>models/user.png\<close>, ignored.
\<close>

theorem orm_model_files:
  assumes "\<exists>seg \<in> set (path_parts p).
      lower ul seg \<in> S ` {''entities'', ''entity'', ''models'', ''model''}"
  shows "(lower ul (path_suffix p)
            \<in> S ` {''.ts'', ''.js'', ''.tsx'', ''.jsx'', ''.py'', ''.rb'', ''.java'', ''.kt''}
           \<longrightarrow> looks_like_schema_file ul p)
       \<and> (lower ul (path_suffix p)
            \<notin> S ` {''.ts'', ''.js'', ''.tsx'', ''.jsx'', ''.py'', ''.rb'', ''.java'', ''.kt''}
            \<and> set (map (lower ul) (path_parts p)) \<inter> SCHEMA_HINT_DIRS = {}
            \<and> \<not> scan_hint_names SCHEMA_HINT_NAMES (lower ul (path_name p))
            \<and> lower ul (path_suffix p) \<notin> ALLOWED_CODE_EXTENSIONS
            \<and> is_file fs p = Inr True
           \<longrightarrow> \<not> looks_like_schema_file ul p \<and> is_ignored ul fs p output_filename = Inr True)"
proof -
  from assms obtain seg where seg: "seg \<in> set (path_parts p)" "lower ul seg \<in> ORM_SEGMENTS"
    unfolding ORM_SEGMENTS_def by blast
  from seg(1) have "lower ul seg \<in> set (map (lower ul) (path_parts p))"
    by simp
  with seg(2) have orm: "\<exists>seg \<in> ORM_SEGMENTS. seg \<in> set (map (lower ul) (path_parts p))"
    by blast
  have a: "lower ul (path_suffix p) \<in> ORM_EXTENSIONS \<Longrightarrow> looks_like_schema_file ul p"
    using orm by (simp add: looks_like_schema_file_in_def Let_def)
  have sqlp: "S ''.sql'' \<in> ALLOWED_CODE_EXTENSIONS" "S ''.prisma'' \<in> ALLOWED_CODE_EXTENSIONS"
    by (simp_all add: ALLOWED_CODE_EXTENSIONS_def S_simps)
  have b: "\<not> looks_like_schema_file ul p"
    if "lower ul (path_suffix p) \<notin> ORM_EXTENSIONS"
      "set (map (lower ul) (path_parts p)) \<inter> SCHEMA_HINT_DIRS = {}"
      "\<not> scan_hint_names SCHEMA_HINT_NAMES (lower ul (path_name p))"
      "lower ul (path_suffix p) \<notin> ALLOWED_CODE_EXTENSIONS"
    using that sqlp by (auto simp: looks_like_schema_file_in_def Let_def)
  have c: "is_ignored ul fs p output_filename = Inr True"
    if "\<not> looks_like_schema_file ul p" "lower ul (path_suffix p) \<notin> ALLOWED_CODE_EXTENSIONS"
      "is_file fs p = Inr True"
    using that by (simp add: is_ignored_in_def)
  show ?thesis
    using a b c unfolding ORM_EXTENSIONS_def by blast
qed


lemma user_py_path:
  "path_parts (Path (S ''models/user.py'')) = [S ''models'', S ''user.py'']"
  "lower letters_lower (path_suffix (Path (S ''models/user.py''))) = S ''.py''"
  by code_simp+

lemma user_png_path:
  "path_parts (Path (S ''models/user.png'')) = [S ''models'', S ''user.png'']"
  "path_name (Path (S ''models/user.png'')) = S ''user.png''"
  "lower letters_lower (path_suffix (Path (S ''models/user.png''))) = S ''.png''"
  by code_simp+

lemma user_png_no_hint:
  "set (map (lower letters_lower) (path_parts (Path (S ''models/user.png''))))
     \<inter> SCHEMA_HINT_DIRS = {}"
  "\<not> scan_hint_names SCHEMA_HINT_NAMES (lower letters_lower (path_name (Path (S ''models/user.png''))))"
  "lower letters_lower (path_suffix (Path (S ''models/user.png''))) \<notin> ALLOWED_CODE_EXTENSIONS"
  "lower letters_lower (path_suffix (Path (S ''models/user.png'')))
     \<notin> S ` {''.ts'', ''.js'', ''.tsx'', ''.jsx'', ''.py'', ''.rb'', ''.java'', ''.kt''}"
  by code_simp+

theorem orm_model_files_witness:
  "looks_like_schema_file letters_lower (Path (S ''models/user.py''))
   \<and> is_ignored letters_lower small_files (Path (S ''models/user.py'')) (S ''project_dump.txt'')
       = Inr False
   \<and> \<not> looks_like_schema_file letters_lower (Path (S ''models/user.png''))
   \<and> is_ignored letters_lower small_files (Path (S ''models/user.png'')) (S ''project_dump.txt'')
       = Inr True"
proof -
  have py: "\<exists>seg \<in> set (path_parts (Path (S ''models/user.py''))).
      lower letters_lower seg \<in> S ` {''entities'', ''entity'', ''models'', ''model''}"
    unfolding user_py_path by code_simp
  have png: "\<exists>seg \<in> set (path_parts (Path (S ''models/user.png''))).
      lower letters_lower seg \<in> S ` {''entities'', ''entity'', ''models'', ''model''}"
    unfolding user_png_path by code_simp
  have pyext: "lower letters_lower (path_suffix (Path (S ''models/user.py'')))
      \<in> S ` {''.ts'', ''.js'', ''.tsx'', ''.jsx'', ''.py'', ''.rb'', ''.java'', ''.kt''}"
    by code_simp
  have kept: "is_ignored letters_lower small_files (Path (S ''models/user.py''))
      (S ''project_dump.txt'') = Inr False"
    by code_simp
  have "looks_like_schema_file letters_lower (Path (S ''models/user.py''))"
    by (rule orm_model_files [OF py, THEN conjunct1, THEN mp, OF pyext])
  moreover have "\<not> looks_like_schema_file letters_lower (Path (S ''models/user.png''))
      \<and> is_ignored letters_lower small_files (Path (S ''models/user.png''))
          (S ''project_dump.txt'') = Inr True"
    by (rule orm_model_files [OF png, THEN conjunct2, THEN mp])
       (intro conjI user_png_no_hint is_file_small_files)
  ultimately show ?thesis using kept by simp
qed

text \<open>
  C6 as stated fails: \<open>db/models/diagram.png\<close> has the segment \<open>models\<close>, and its extension
  is neither one of the ORM rule nor code-like, but the segment \<open>db\<close> makes the file
  schema-like, so a small one is kept.
\<close>

theorem orm_diagram_kept_counterexample:
  "S ''models'' \<in> set (path_parts (Path (S ''db/models/diagram.png'')))
   \<and> lower letters_lower (path_suffix (Path (S ''db/models/diagram.png''))) = S ''.png''
   \<and> S ''.png'' \<notin> ORM_EXTENSIONS
   \<and> S ''.png'' \<notin> ALLOWED_CODE_EXTENSIONS
   \<and> is_file small_files (Path (S ''db/models/diagram.png'')) = Inr True
   \<and> is_ignored letters_lower small_files (Path (S ''db/models/diagram.png''))
       (S ''project_dump.txt'') = Inr False"
  by code_simp

text \<open>
  C7 does not hold of the code. A failure of \<open>stat\<close> never makes a path large. But only the
  failures that \<open>is_file\<close> answers with \<open>False\<close> are kept from the caller: \<open>is_ignored\<close> then
  returns, and ignores the path exactly when a rule that does not read the size applies.
  On any other failure of \<open>stat\<close>, \<open>is_ignored\<close> raises, unless one of its first three
  rules has returned before: the two calls of \<open>path.is_file()\<close> are outside the \<open>try\<close> of
  \<open>is_large\<close>.
\<close>

theorem unguarded_is_file_raises:
  "(fs p = StatFailed \<and> path_name p \<noteq> output_filename
      \<and> path_name p \<notin> IGNORED_FILENAMES
      \<and> (\<forall>part \<in> set (path_parts p). part \<notin> IGNORED_DIRS)
    \<longrightarrow> \<not> is_large fs p \<and> is_ignored ul fs p output_filename = Inl OSError)
   \<and> (fs p = StatAbsent
    \<longrightarrow> \<not> is_large fs p \<and>
        is_ignored ul fs p output_filename
        = Inr (path_name p = output_filename
             \<or> path_name p \<in> IGNORED_FILENAMES
             \<or> (\<exists>part \<in> set (path_parts p). part \<in> IGNORED_DIRS)
             \<or> (lower ul (path_suffix p) \<in> BULK_DATA_EXTENSIONS
                  \<and> \<not> looks_like_schema_file ul p)
             \<or> lower ul (path_suffix p) \<in> IGNORED_EXTENSIONS))"
proof -
  have a: "\<not> is_large fs p" if "fs p = StatFailed \<or> fs p = StatAbsent"
    using that by (auto simp: is_large_def)
  have b: "is_ignored ul fs p output_filename
        = Inr (path_name p = output_filename
             \<or> path_name p \<in> IGNORED_FILENAMES
             \<or> (\<exists>part \<in> set (path_parts p). part \<in> IGNORED_DIRS)
             \<or> (lower ul (path_suffix p) \<in> BULK_DATA_EXTENSIONS
                  \<and> \<not> looks_like_schema_file ul p)
             \<or> lower ul (path_suffix p) \<in> IGNORED_EXTENSIONS)"
    if "fs p = StatAbsent"
    using that by (auto simp: is_ignored_in_def is_file_def is_large_def)
  show ?thesis
    using a b is_ignored_raises [of fs p output_filename ul SCHEMA_HINT_NAMES] by blast
qed

lemma app_py_path:
  "path_name (Path (S ''src/app.py'')) \<noteq> S ''project_dump.txt''"
  "path_name (Path (S ''src/app.py'')) \<notin> IGNORED_FILENAMES"
  "\<forall>part \<in> set (path_parts (Path (S ''src/app.py''))). part \<notin> IGNORED_DIRS"
  "\<not> (\<exists>part \<in> set (path_parts (Path (S ''src/app.py''))). part \<in> IGNORED_DIRS)"
  "lower letters_lower (path_suffix (Path (S ''src/app.py''))) \<notin> BULK_DATA_EXTENSIONS"
  "lower letters_lower (path_suffix (Path (S ''src/app.py''))) \<notin> IGNORED_EXTENSIONS"
  by code_simp+

theorem unguarded_is_file_raises_witness:
  "no_access (Path (S ''src/app.py'')) = StatFailed
   \<and> \<not> is_large no_access (Path (S ''src/app.py''))
   \<and> is_ignored letters_lower no_access (Path (S ''src/app.py'')) (S ''project_dump.txt'')
       = Inl OSError
   \<and> nothing_there (Path (S ''src/app.py'')) = StatAbsent
   \<and> is_ignored letters_lower nothing_there (Path (S ''src/app.py'')) (S ''project_dump.txt'')
       = Inr False"
proof -
  have e: "no_access (Path (S ''src/app.py'')) = StatFailed"
    "nothing_there (Path (S ''src/app.py'')) = StatAbsent"
    by (simp_all add: no_access_def nothing_there_def)
  have "\<not> is_large no_access (Path (S ''src/app.py''))
      \<and> is_ignored letters_lower no_access (Path (S ''src/app.py'')) (S ''project_dump.txt'')
          = Inl OSError"
    using unguarded_is_file_raises [of no_access "Path (S ''src/app.py'')"
        "S ''project_dump.txt''" letters_lower] e(1) app_py_path
    by blast
  moreover have "is_ignored letters_lower nothing_there (Path (S ''src/app.py''))
      (S ''project_dump.txt'') = Inr False"
    using unguarded_is_file_raises [of nothing_there "Path (S ''src/app.py'')"
        "S ''project_dump.txt''" letters_lower] e(2) app_py_path
    by simp
  ultimately show ?thesis
    using e by simp
qed

section \<open>Properties of the tree builder\<close>

lemma fold_exn_invariant:
  assumes "fold_exn f s xs = Inr r" and "I s"
    and "\<And>s x s'. x \<in> set xs \<Longrightarrow> I s \<Longrightarrow> f s x = Inr s' \<Longrightarrow> I s'"
  shows "I r"
  using assms
proof (induction xs arbitrary: s)
  case Nil
  then show ?case by simp
next
  case (Cons x xs)
  from Cons.prems(1) obtain s' where s': "f s x = Inr s'" "fold_exn f s' xs = Inr r"
    by (auto split: sum.splits)
  have "I s'"
    using Cons.prems(3) [of x s s'] Cons.prems(2) s'(1) by simp
  then show ?case
    using Cons.IH [OF s'(2)] Cons.prems(3) by (meson list.set_intros(2))
qed

subsection \<open>Path strings\<close>

lemma split_on_no_sep: "c \<notin> set s \<Longrightarrow> split_on c s = [s]"
  by (induction s) auto

lemma split_on_nonempty: "split_on c s \<noteq> []"
  by (induction s) (auto split: list.splits)

lemma split_on_append: "split_on c (x @ c # y) = split_on c x @ split_on c y"
  by (induction x) (auto split: list.splits simp: split_on_nonempty)

lemma valid_name_tail: "valid_name f \<Longrightarrow> tail (Path f) = [f]"
  by (simp add: valid_name_def Path_def split_on_no_sep)

lemma valid_name_not_abs: "valid_name f \<Longrightarrow> \<not> startswith f [SEP]"
  by (cases f) (auto simp: valid_name_def)

lemma joinpath_valid: "valid_name f \<Longrightarrow> joinpath p f = p\<lparr>tail := tail p @ [f]\<rparr>"
  by (simp add: joinpath_def valid_name_not_abs valid_name_tail)

lemma path_name_joinpath: "valid_name f \<Longrightarrow> path_name (joinpath p f) = f"
  by (simp add: joinpath_valid path_name_def)

lemma parse_anchor_join:
  assumes "valid_name d"
  shows "parse_anchor (os_path_join r d) = parse_anchor r"
proof -
  obtain x xs where d: "d = x # xs" "x \<noteq> SEP"
    using assms by (cases d) (auto simp: valid_name_def)
  show ?thesis
  proof (cases r)
    case Nil
    then show ?thesis using d by (simp add: os_path_join_def parse_anchor_def)
  next
    case (Cons a r1)
    note r = this
    show ?thesis
    proof (cases r1)
      case Nil
      then show ?thesis using d r by (auto simp: os_path_join_def parse_anchor_def)
    next
      case (Cons b r2)
      note r1 = this
      show ?thesis
      proof (cases r2)
        case Nil
        then show ?thesis using d r r1 by (auto simp: os_path_join_def parse_anchor_def)
      next
        case (Cons c r3)
        then show ?thesis using d r r1 by (auto simp: os_path_join_def parse_anchor_def)
      qed
    qed
  qed
qed

lemma tail_Path_join:
  assumes "valid_name d"
  shows "tail (Path (os_path_join r d)) = tail (Path r) @ [d]"
proof -
  have nd: "\<not> startswith d [SEP]" using assms by (rule valid_name_not_abs)
  have sd: "split_on SEP d = [d]" "d \<noteq> []" "d \<noteq> [DOT]"
    using assms by (auto simp: valid_name_def split_on_no_sep)
  show ?thesis
  proof (cases "r = []")
    case True
    then show ?thesis using nd sd by (simp add: os_path_join_def Path_def)
  next
    case False
    show ?thesis
    proof (cases "last r = SEP")
      case True
      with False obtain r' where r: "r = r' @ [SEP]"
        by (metis append_butlast_last_id)
      have "split_on SEP r = split_on SEP r' @ [[]]"
        using split_on_append [of SEP r' "[]"] r by simp
      moreover have "split_on SEP (r @ d) = split_on SEP r' @ [d]"
        using split_on_append [of SEP r' d] r sd by simp
      ultimately show ?thesis
        using True False nd sd by (simp add: os_path_join_def Path_def)
    next
      case l: False
      have "split_on SEP (r @ [SEP] @ d) = split_on SEP r @ [d]"
        using split_on_append [of SEP r d] sd by simp
      then show ?thesis
        using l False nd sd by (simp add: os_path_join_def Path_def)
    qed
  qed
qed

lemma Path_os_path_join: "valid_name d \<Longrightarrow> Path (os_path_join r d) = joinpath (Path r) d"
  using parse_anchor_join [of d r] tail_Path_join [of d r]
  by (simp add: joinpath_valid) (simp add: Path_def)

subsection \<open>The walk\<close>

text \<open>
  When the body of the loop returns, the list it leaves in \<open>dirs\<close> holds the names for
  which \<open>is_ignored\<close> returned \<open>False\<close>: the names the walk enters.
\<close>

lemma not_ignored_dirs_keep:
  "not_ignored_dirs ul h fs out root ds = Inr ds' \<Longrightarrow>
   ds' = filter (\<lambda>d. is_ignored_in ul h fs (joinpath (Path root) d) out = Inr False) ds"
  by (induction ds arbitrary: ds') (auto split: sum.splits if_splits)

lemma os_walk_files_valid:
  "wf_tree t \<Longrightarrow> (r, ds, fl) \<in> set (os_walk keep topdir t) \<Longrightarrow> f \<in> set fl \<Longrightarrow> valid_name f"
proof (induction keep topdir t arbitrary: r ds fl rule: os_walk.induct)
  case (1 keep topdir)
  then show ?case by simp
next
  case (2 keep topdir files subdirs)
  from "2.prems"(2) consider
    (here) "(r, ds, fl) = (topdir, map fst subdirs, files)"
    | (below) d t where "(d, t) \<in> set (filter (\<lambda>(d, t). keep topdir d) subdirs)"
        "(r, ds, fl) \<in> set (os_walk keep (os_path_join topdir d) t)"
    by auto
  then show ?case
  proof cases
    case here
    then show ?thesis using "2.prems" by auto
  next
    case below
    from below(1) have "wf_tree t" using "2.prems"(1) by auto
    then show ?thesis
      using "2.IH" [OF below(1) refl _ below(2) "2.prems"(3)] by simp
  qed
qed

lemma os_walk_entered:
  "wf_tree t \<Longrightarrow> (r, ds, fl) \<in> set (tl (os_walk keep topdir t)) \<Longrightarrow>
   \<exists>r0 d. r = os_path_join r0 d \<and> valid_name d \<and> keep r0 d"
proof (induction keep topdir t arbitrary: r ds fl rule: os_walk.induct)
  case (1 keep topdir)
  then show ?case by simp
next
  case (2 keep topdir files subdirs)
  from "2.prems"(2) obtain d t where dt: "(d, t) \<in> set (filter (\<lambda>(d, t). keep topdir d) subdirs)"
        "(r, ds, fl) \<in> set (os_walk keep (os_path_join topdir d) t)"
    by auto
  from dt(1) have wf: "wf_tree t" and vd: "valid_name d" and kd: "keep topdir d"
    using "2.prems"(1) by auto
  show ?case
  proof (cases t)
    case Unlisted
    then show ?thesis using dt(2) by simp
  next
    case (Listing fl' sd')
    then have "os_walk keep (os_path_join topdir d) t
      = hd (os_walk keep (os_path_join topdir d) t) # tl (os_walk keep (os_path_join topdir d) t)"
      by simp
    moreover have "fst (hd (os_walk keep (os_path_join topdir d) t)) = os_path_join topdir d"
      using Listing by simp
    ultimately consider "r = os_path_join topdir d"
      | "(r, ds, fl) \<in> set (tl (os_walk keep (os_path_join topdir d) t))"
      using dt(2) by (metis fst_conv set_ConsD)
    then show ?thesis
    proof cases
      case 1
      then show ?thesis using vd kd by blast
    next
      case 2
      then show ?thesis
        using "2.IH" [OF dt(1) refl wf 2] by simp
    qed
  qed
qed

lemma pruned_walk_not_ignored:
  assumes "wf_tree tree"
    and "(r, ds, fl) \<in> set (tl (pruned_walk ul h fs tree root_path output_filename))"
  shows "is_ignored_in ul h fs (Path r) output_filename = Inr False"
proof -
  from os_walk_entered [OF assms(1) assms(2) [unfolded pruned_walk_def]]
  obtain r0 d where "r = os_path_join r0 d" "valid_name d"
    "is_ignored_in ul h fs (joinpath (Path r0) d) output_filename = Inr False"
    by blast
  then show ?thesis by (simp add: Path_os_path_join)
qed


lemma os_path_join_chars: "set (os_path_join a b) \<subseteq> set a \<union> set b \<union> {SEP}"
  by (auto simp: os_path_join_def)

lemma os_walk_one_line:
  "one_line_names t \<Longrightarrow> NEWLINE \<notin> set topdir \<Longrightarrow> (r, ds, fl) \<in> set (os_walk keep topdir t) \<Longrightarrow>
   NEWLINE \<notin> set r \<and> (\<forall>f \<in> set fl. NEWLINE \<notin> set f)"
proof (induction keep topdir t arbitrary: r ds fl rule: os_walk.induct)
  case (1 keep topdir)
  then show ?case by simp
next
  case (2 keep topdir files subdirs)
  from "2.prems"(3) consider
    (here) "(r, ds, fl) = (topdir, map fst subdirs, files)"
    | (below) d t where "(d, t) \<in> set (filter (\<lambda>(d, t). keep topdir d) subdirs)"
        "(r, ds, fl) \<in> set (os_walk keep (os_path_join topdir d) t)"
    by auto
  then show ?case
  proof cases
    case here
    then show ?thesis using "2.prems" by auto
  next
    case below
    from below(1) have t: "one_line_names t" and d: "NEWLINE \<notin> set d"
      using "2.prems"(1) by auto
    have "NEWLINE \<notin> set (os_path_join topdir d)"
      using os_path_join_chars [of topdir d] d "2.prems"(2) by auto
    then show ?thesis
      using "2.IH" [OF below(1) refl t _ below(2)] by simp
  qed
qed

subsection \<open>Tree lines\<close>

lemma strip_indent_replicate: "strip_indent (replicate n SPACE @ l) = strip_indent l"
  by (induction n) (simp_all add: strip_indent_def)

lemma file_line_is_file_line:
  "is_file_line (replicate n SPACE @ FILE_MARK @ rest)"
  "is_file_line (replicate n SPACE @ SCHEMA_MARK @ rest)"
  by (simp_all add: is_file_line_def strip_indent_replicate)
     (simp_all add: strip_indent_def FILE_MARK_def SCHEMA_MARK_def)

lemma strip_file_line:
  "strip_indent (replicate n SPACE @ FILE_MARK @ rest) = FILE_MARK @ rest"
  "strip_indent (replicate n SPACE @ SCHEMA_MARK @ rest) = SCHEMA_MARK @ rest"
  by (simp_all add: strip_indent_replicate) (simp_all add: strip_indent_def FILE_MARK_def SCHEMA_MARK_def)

lemma folder_line_not_file_line:
  "\<not> is_file_line (replicate n SPACE @ FOLDER_MARK @ rest)"
  by (simp add: is_file_line_def strip_indent_replicate)
     (simp add: strip_indent_def FILE_MARK_def SCHEMA_MARK_def FOLDER_MARK_def)

lemma empty_line_not_file_line: "\<not> is_file_line []"
  by (simp add: is_file_line_def strip_indent_def FILE_MARK_def SCHEMA_MARK_def)

lemma marks_one_line:
  "NEWLINE \<notin> set FILE_MARK" "NEWLINE \<notin> set SCHEMA_MARK" "NEWLINE \<notin> set FOLDER_MARK"
  by (simp_all add: FILE_MARK_def SCHEMA_MARK_def FOLDER_MARK_def)

lemma basename_chars: "set (basename s) \<subseteq> set s"
  unfolding basename_def by (rule set_drop_subset)

lemma split_on_join:
  "\<forall>l \<in> set ls. c \<notin> set l \<Longrightarrow> ls \<noteq> [] \<Longrightarrow> split_on c (join [c] ls) = ls"
proof (induction "[c]" ls rule: join.induct)
  case 1
  then show ?case by simp
next
  case (2 x)
  then show ?case by (simp add: split_on_no_sep)
next
  case (3 x y ys)
  have "split_on c (x @ c # join [c] (y # ys)) = split_on c x @ split_on c (join [c] (y # ys))"
    by (rule split_on_append)
  then show ?case
    using 3 by (simp add: split_on_no_sep)
qed

lemma file_lines_of_text:
  assumes "\<forall>l \<in> set ls. NEWLINE \<notin> set l"
  shows "filter is_file_line (split_on NEWLINE (join [NEWLINE] ls)) = filter is_file_line ls"
proof (cases "ls = []")
  case True
  then show ?thesis by (simp add: empty_line_not_file_line)
next
  case False
  then show ?thesis using assms by (simp add: split_on_join)
qed

subsection \<open>The loop bodies\<close>

lemma visit_file_kept:
  assumes "visit_file ul h fs out root ind st f = Inr st'"
    and "\<forall>p \<in> set (files_to_dump st). is_ignored_in ul h fs p out = Inr False"
  shows "\<forall>p \<in> set (files_to_dump st'). is_ignored_in ul h fs p out = Inr False"
  using assms by (auto simp: visit_file_def Let_def split: sum.splits if_splits)

lemma visit_file_schema:
  assumes "visit_file ul h fs out root ind st f = Inr st'"
    and "schema_files st = filter (looks_like_schema_file_in ul h) (files_to_dump st)"
  shows "schema_files st' = filter (looks_like_schema_file_in ul h) (files_to_dump st')"
  using assms by (auto simp: visit_file_def Let_def split: sum.splits if_splits)

lemma visit_file_lines:
  assumes "visit_file ul SCHEMA_HINT_NAMES fs out root (replicate n SPACE) st f = Inr st'"
    and "map strip_indent (filter is_file_line (tree_lines st))
          = map (file_entry ul) (files_to_dump st)"
    and "valid_name f"
  shows "map strip_indent (filter is_file_line (tree_lines st'))
          = map (file_entry ul) (files_to_dump st')"
  using assms
  by (auto simp: visit_file_def Let_def file_line_is_file_line strip_file_line file_entry_def
      path_name_joinpath split: sum.splits if_splits)

lemma visit_file_one_line:
  assumes "visit_file ul h fs out root (replicate n SPACE) st f = Inr st'"
    and "\<forall>l \<in> set (tree_lines st). NEWLINE \<notin> set l"
    and "NEWLINE \<notin> set f"
  shows "\<forall>l \<in> set (tree_lines st'). NEWLINE \<notin> set l"
  using assms marks_one_line
  by (auto simp: visit_file_def Let_def split: sum.splits if_splits)


lemma add_dir_line_files [simp]:
  "files_to_dump (add_dir_line rp root st) = files_to_dump st"
  "schema_files (add_dir_line rp root st) = schema_files st"
  by (simp_all add: add_dir_line_def Let_def)

lemma add_dir_line_file_lines [simp]:
  "filter is_file_line (tree_lines (add_dir_line rp root st)) = filter is_file_line (tree_lines st)"
  by (simp add: add_dir_line_def Let_def folder_line_not_file_line)

lemma add_dir_line_one_line:
  assumes "\<forall>l \<in> set (tree_lines st). NEWLINE \<notin> set l" and "NEWLINE \<notin> set root"
  shows "\<forall>l \<in> set (tree_lines (add_dir_line rp root st)). NEWLINE \<notin> set l"
  using assms marks_one_line basename_chars [of root]
  by (auto simp: add_dir_line_def Let_def)

lemma visit_dir_files:
  assumes "visit_dir ul h fs rp out st (root, dirs, files) = Inr st'"
  shows "fold_exn (visit_file ul h fs out root
            (replicate (4 * (level_of (path_str rp) root + 1)) SPACE))
           (add_dir_line rp root st) (sort files) = Inr st'"
  using assms by (auto simp: visit_dir_def Let_def split: sum.splits)

lemma visit_dir_kept:
  assumes "visit_dir ul h fs rp out st triple = Inr st'"
    and "\<forall>p \<in> set (files_to_dump st). is_ignored_in ul h fs p out = Inr False"
  shows "\<forall>p \<in> set (files_to_dump st'). is_ignored_in ul h fs p out = Inr False"
proof -
  obtain root dirs files where t: "triple = (root, dirs, files)"
    by (cases triple)
  show ?thesis
    by (rule fold_exn_invariant [OF visit_dir_files [OF assms(1) [unfolded t]],
          where I = "\<lambda>s. \<forall>p \<in> set (files_to_dump s). is_ignored_in ul h fs p out = Inr False"])
       (use assms(2) in simp, erule (1) visit_file_kept)
qed

lemma visit_dir_schema:
  assumes "visit_dir ul h fs rp out st triple = Inr st'"
    and "schema_files st = filter (looks_like_schema_file_in ul h) (files_to_dump st)"
  shows "schema_files st' = filter (looks_like_schema_file_in ul h) (files_to_dump st')"
proof -
  obtain root dirs files where t: "triple = (root, dirs, files)"
    by (cases triple)
  show ?thesis
    by (rule fold_exn_invariant [OF visit_dir_files [OF assms(1) [unfolded t]],
          where I = "\<lambda>s. schema_files s = filter (looks_like_schema_file_in ul h) (files_to_dump s)"])
       (use assms(2) in simp, erule (1) visit_file_schema)
qed

lemma visit_dir_lines:
  assumes "visit_dir ul SCHEMA_HINT_NAMES fs rp out st (root, dirs, files) = Inr st'"
    and "map strip_indent (filter is_file_line (tree_lines st))
          = map (file_entry ul) (files_to_dump st)"
    and "\<forall>f \<in> set files. valid_name f"
  shows "map strip_indent (filter is_file_line (tree_lines st'))
          = map (file_entry ul) (files_to_dump st')"
proof (rule fold_exn_invariant [OF visit_dir_files [OF assms(1)],
      where I = "\<lambda>s. map strip_indent (filter is_file_line (tree_lines s))
                      = map (file_entry ul) (files_to_dump s)"])
  show "map strip_indent (filter is_file_line (tree_lines (add_dir_line rp root st)))
      = map (file_entry ul) (files_to_dump (add_dir_line rp root st))"
    using assms(2) by simp
next
  fix s :: walk_state and x s'
  assume "x \<in> set (sort files)"
    and "map strip_indent (filter is_file_line (tree_lines s)) = map (file_entry ul) (files_to_dump s)"
    and "visit_file ul SCHEMA_HINT_NAMES fs out root
          (replicate (4 * (level_of (path_str rp) root + 1)) SPACE) s x = Inr s'"
  then show "map strip_indent (filter is_file_line (tree_lines s'))
      = map (file_entry ul) (files_to_dump s')"
    using assms(3) visit_file_lines by auto
qed

lemma visit_dir_one_line:
  assumes "visit_dir ul h fs rp out st (root, dirs, files) = Inr st'"
    and "\<forall>l \<in> set (tree_lines st). NEWLINE \<notin> set l"
    and "NEWLINE \<notin> set root" and "\<forall>f \<in> set files. NEWLINE \<notin> set f"
  shows "\<forall>l \<in> set (tree_lines st'). NEWLINE \<notin> set l"
proof (rule fold_exn_invariant [OF visit_dir_files [OF assms(1)],
      where I = "\<lambda>s. \<forall>l \<in> set (tree_lines s). NEWLINE \<notin> set l"])
  show "\<forall>l \<in> set (tree_lines (add_dir_line rp root st)). NEWLINE \<notin> set l"
    using assms(2,3) by (rule add_dir_line_one_line)
next
  fix s :: walk_state and x s'
  assume "x \<in> set (sort files)" and "\<forall>l \<in> set (tree_lines s). NEWLINE \<notin> set l"
    and "visit_file ul h fs out root
          (replicate (4 * (level_of (path_str rp) root + 1)) SPACE) s x = Inr s'"
  then show "\<forall>l \<in> set (tree_lines s'). NEWLINE \<notin> set l"
    using assms(4) visit_file_one_line by auto
qed

subsection \<open>The whole walk\<close>

lemma walk_loop_kept:
  assumes "walk_loop ul h fs tree rp out = Inr st"
  shows "\<forall>p \<in> set (files_to_dump st). is_ignored_in ul h fs p out = Inr False"
  by (rule fold_exn_invariant [OF assms [unfolded walk_loop_def],
        where I = "\<lambda>s. \<forall>p \<in> set (files_to_dump s). is_ignored_in ul h fs p out = Inr False"])
     (simp, erule (1) visit_dir_kept)

lemma walk_loop_schema:
  assumes "walk_loop ul h fs tree rp out = Inr st"
  shows "schema_files st = filter (looks_like_schema_file_in ul h) (files_to_dump st)"
  by (rule fold_exn_invariant [OF assms [unfolded walk_loop_def],
        where I = "\<lambda>s. schema_files s = filter (looks_like_schema_file_in ul h) (files_to_dump s)"])
     (simp, erule (1) visit_dir_schema)

lemma walk_loop_lines:
  assumes "walk_loop ul SCHEMA_HINT_NAMES fs tree rp out = Inr st" and "wf_tree tree"
  shows "map strip_indent (filter is_file_line (tree_lines st))
     = map (file_entry ul) (files_to_dump st)"
proof (rule fold_exn_invariant [OF assms(1) [unfolded walk_loop_def],
      where I = "\<lambda>s. map strip_indent (filter is_file_line (tree_lines s))
                      = map (file_entry ul) (files_to_dump s)"])
  show "map strip_indent (filter is_file_line
          (tree_lines \<lparr>tree_lines = [], files_to_dump = [], schema_files = []\<rparr>))
      = map (file_entry ul)
          (files_to_dump \<lparr>tree_lines = [], files_to_dump = [], schema_files = []\<rparr>)"
    by simp
next
  fix s :: walk_state and x s'
  assume x: "x \<in> set (pruned_walk ul SCHEMA_HINT_NAMES fs tree rp out)"
    and s: "map strip_indent (filter is_file_line (tree_lines s))
          = map (file_entry ul) (files_to_dump s)"
    and v: "visit_dir ul SCHEMA_HINT_NAMES fs rp out s x = Inr s'"
  obtain root dirs files where t: "x = (root, dirs, files)"
    by (cases x)
  have "\<forall>f \<in> set files. valid_name f"
    using os_walk_files_valid [OF assms(2)] x unfolding t pruned_walk_def by blast
  then show "map strip_indent (filter is_file_line (tree_lines s'))
      = map (file_entry ul) (files_to_dump s')"
    using visit_dir_lines [OF v [unfolded t] s] by simp
qed

lemma walk_loop_one_line:
  assumes "walk_loop ul h fs tree rp out = Inr st"
    and "one_line_names tree" and "NEWLINE \<notin> set (path_str rp)"
  shows "\<forall>l \<in> set (tree_lines st). NEWLINE \<notin> set l"
proof (rule fold_exn_invariant [OF assms(1) [unfolded walk_loop_def],
      where I = "\<lambda>s. \<forall>l \<in> set (tree_lines s). NEWLINE \<notin> set l"])
  show "\<forall>l \<in> set (tree_lines \<lparr>tree_lines = [], files_to_dump = [], schema_files = []\<rparr>).
      NEWLINE \<notin> set l"
    by simp
next
  fix s :: walk_state and x s'
  assume x: "x \<in> set (pruned_walk ul h fs tree rp out)"
    and s: "\<forall>l \<in> set (tree_lines s). NEWLINE \<notin> set l"
    and v: "visit_dir ul h fs rp out s x = Inr s'"
  obtain root dirs files where t: "x = (root, dirs, files)"
    by (cases x)
  have "NEWLINE \<notin> set root \<and> (\<forall>f \<in> set files. NEWLINE \<notin> set f)"
    using os_walk_one_line [OF assms(2,3)] x unfolding t pruned_walk_def by blast
  then show "\<forall>l \<in> set (tree_lines s'). NEWLINE \<notin> set l"
    using visit_dir_one_line [OF v [unfolded t] s] by simp
qed

lemma generate_tree_parts:
  assumes "generate_tree_in ul h fs tree rp out = Inr (tree_text, kept_files, schemas)"
  shows "\<exists>st. walk_loop ul h fs tree rp out = Inr st \<and> tree_text = join [NEWLINE] (tree_lines st)
      \<and> kept_files = files_to_dump st \<and> schemas = schema_files st"
  using assms by (auto simp: generate_tree_in_def split: sum.splits)

lemma ignored_segment:
  "\<exists>part \<in> set (path_parts p). part \<in> IGNORED_DIRS \<Longrightarrow> is_ignored_in ul h fs p out = Inr True"
  by (simp add: is_ignored_in_def)


subsection \<open>The iteration order of the hint names\<close>

lemma scan_hint_names_set: "scan_hint_names ks name = (\<exists>k \<in> set ks. contains name k)"
  by (induction ks) auto

lemma looks_like_schema_file_order:
  "set ks = set ks' \<Longrightarrow> looks_like_schema_file_in ul ks p = looks_like_schema_file_in ul ks' p"
  by (simp add: looks_like_schema_file_in_def scan_hint_names_set)

lemma is_ignored_order:
  "set ks = set ks' \<Longrightarrow> is_ignored_in ul ks fs p out = is_ignored_in ul ks' fs p out"
  by (simp only: is_ignored_in_def looks_like_schema_file_order [of ks ks'])

lemma generate_tree_order:
  assumes "set ks = set ks'"
  shows "generate_tree_in ul ks fs tree rp out = generate_tree_in ul ks' fs tree rp out"
proof -
  have l: "looks_like_schema_file_in ul ks = looks_like_schema_file_in ul ks'"
    using assms by (intro ext) (rule looks_like_schema_file_order)
  have i: "is_ignored_in ul ks = is_ignored_in ul ks'"
    using assms by (intro ext) (rule is_ignored_order)
  have "not_ignored_dirs ul ks fs' out' root ds = not_ignored_dirs ul ks' fs' out' root ds"
    for fs' out' root ds
    by (induction ds) (simp_all only: not_ignored_dirs.simps i)
  then have nd: "not_ignored_dirs ul ks = not_ignored_dirs ul ks'"
    by (intro ext)
  have vf: "visit_file ul ks = visit_file ul ks'"
    by (intro ext) (simp only: visit_file_def l i)
  have vd: "visit_dir ul ks = visit_dir ul ks'"
    by (intro ext) (simp only: visit_dir_def vf nd)
  have pw: "pruned_walk ul ks = pruned_walk ul ks'"
    by (intro ext) (simp only: pruned_walk_def i)
  have wl: "walk_loop ul ks = walk_loop ul ks'"
    by (intro ext) (simp only: walk_loop_def vd pw)
  show ?thesis
    by (simp only: generate_tree_in_def wl)
qed

subsection \<open>The level of a directory\<close>

text \<open>
  Where the root string holds no separator, removing its occurrences removes none: the
  level of a directory is then the number of separators of its path.
\<close>

lemma startswith_append: "startswith s old \<Longrightarrow> s = old @ drop (length old) s"
  by (induction s old rule: startswith.induct) auto

lemma count_char_remove_all:
  "SEP \<notin> set old \<Longrightarrow> count_char (remove_all s old) SEP = count_char s SEP"
proof (induction s old rule: remove_all.induct)
  case (1 old)
  then show ?case by simp
next
  case (2 c cs old)
  show ?case
  proof (cases "old \<noteq> [] \<and> startswith (c # cs) old")
    case True
    then have "c # cs = old @ drop (length old) (c # cs)"
      by (intro startswith_append) simp
    then have "count_char (c # cs) SEP
        = count_char old SEP + count_char (drop (length old) (c # cs)) SEP"
      unfolding count_char_def by (metis filter_append length_append)
    moreover have "count_char old SEP = 0"
      using "2.prems" by (auto simp: count_char_def filter_empty_conv)
    ultimately show ?thesis
      using True "2.IH"(1) "2.prems" by simp
  next
    case False
    then show ?thesis
      using "2.IH"(2) "2.prems" by (auto simp: count_char_def)
  qed
qed

lemma level_of_no_sep:
  "SEP \<notin> set root_str \<Longrightarrow> level_of root_str root = count_char root SEP"
  by (simp add: level_of_def count_char_remove_all)

section \<open>Properties of the traversal result\<close>

text \<open>The end-to-end scenario, evaluated.\<close>

lemma demo_wf: "wf_tree demo_tree"
  by code_simp

lemma demo_generate_tree:
  "generate_tree letters_lower demo_fs demo_tree (Path (S ''proj'')) (S ''project_dump.txt'')
   = Inr (join [NEWLINE]
        [FOLDER_MARK @ S '' proj/'',
         replicate 4 SPACE @ FOLDER_MARK @ S '' src/'',
         replicate 8 SPACE @ FILE_MARK @ S '' app.py'',
         replicate 4 SPACE @ FOLDER_MARK @ S '' migrations/'',
         replicate 8 SPACE @ SCHEMA_MARK @ S '' 001_init.sql''],
      [Path (S ''proj/src/app.py''), Path (S ''proj/migrations/001_init.sql'')],
      [Path (S ''proj/migrations/001_init.sql'')])"
  by code_simp

lemma demo_walk:
  "map fst (pruned_walk letters_lower SCHEMA_HINT_NAMES demo_fs demo_tree (Path (S ''proj''))
      (S ''project_dump.txt''))
   = [S ''proj'', S ''proj/src'', S ''proj/migrations'']"
  by code_simp

text \<open>
  C4. A path with a segment that is an ignored directory name is ignored. For a walk over
  a tree whose listed names are path components, when \<open>generate_tree\<close> returns: no kept file
  and no schema file has such a segment; no directory the walk enters below the root has
  one, so an ignored directory is pruned and nothing beneath it is visited; and the file
  lines of the tree are, in order, the lines of the kept files, so no file beneath an
  ignored directory has a tree line.
\<close>

theorem ignored_directories_pruned:
  assumes "wf_tree tree"
    and "generate_tree ul fs tree root_path output_filename = Inr (tree_text, kept_files, schemas)"
  shows "((\<exists>part \<in> set (path_parts p). part \<in> IGNORED_DIRS)
            \<longrightarrow> is_ignored ul fs p output_filename = Inr True)
     \<and> (\<forall>q \<in> set kept_files \<union> set schemas. \<forall>part \<in> set (path_parts q). part \<notin> IGNORED_DIRS)
     \<and> (\<forall>(r, ds, fl) \<in> set (tl (pruned_walk ul SCHEMA_HINT_NAMES fs tree root_path output_filename)).
           \<forall>part \<in> set (path_parts (Path r)). part \<notin> IGNORED_DIRS)
     \<and> map strip_indent (filter is_file_line
           (tree_lines (projr (walk_loop ul SCHEMA_HINT_NAMES fs tree root_path output_filename))))
         = map (file_entry ul) kept_files"
proof -
  from generate_tree_parts [OF assms(2)] obtain st
    where w: "walk_loop ul SCHEMA_HINT_NAMES fs tree root_path output_filename = Inr st"
      and k: "kept_files = files_to_dump st" and s: "schemas = schema_files st"
    by blast
  have sub: "set schemas \<subseteq> set kept_files"
    unfolding k s by (subst walk_loop_schema [OF w]) simp
  have seg: "\<forall>part \<in> set (path_parts q). part \<notin> IGNORED_DIRS"
    if "is_ignored ul fs q output_filename = Inr False" for q
    using that ignored_segment [of q ul SCHEMA_HINT_NAMES fs output_filename] by auto
  have kept: "\<forall>q \<in> set kept_files. \<forall>part \<in> set (path_parts q). part \<notin> IGNORED_DIRS"
    unfolding k using walk_loop_kept [OF w] seg by blast
  have dirs: "\<forall>(r, ds, fl) \<in> set (tl (pruned_walk ul SCHEMA_HINT_NAMES fs tree root_path output_filename)).
           \<forall>part \<in> set (path_parts (Path r)). part \<notin> IGNORED_DIRS"
    using pruned_walk_not_ignored [OF assms(1)] seg by blast
  have lines: "map strip_indent (filter is_file_line
           (tree_lines (projr (walk_loop ul SCHEMA_HINT_NAMES fs tree root_path output_filename))))
         = map (file_entry ul) kept_files"
    unfolding k w using walk_loop_lines [OF w assms(1)] by simp
  show ?thesis
    using kept sub dirs lines ignored_segment [of p ul SCHEMA_HINT_NAMES fs output_filename]
    by blast
qed

theorem ignored_directories_pruned_witness:
  "wf_tree demo_tree
   \<and> S ''node_modules'' \<in> set (path_parts (Path (S ''proj/node_modules/pkg/index.js'')))
   \<and> S ''node_modules'' \<in> IGNORED_DIRS
   \<and> is_ignored letters_lower demo_fs (Path (S ''proj/node_modules/pkg/index.js''))
        (S ''project_dump.txt'') = Inr True
   \<and> generate_tree letters_lower demo_fs demo_tree (Path (S ''proj'')) (S ''project_dump.txt'')
       = Inr (join [NEWLINE]
          [FOLDER_MARK @ S '' proj/'',
           replicate 4 SPACE @ FOLDER_MARK @ S '' src/'',
           replicate 8 SPACE @ FILE_MARK @ S '' app.py'',
           replicate 4 SPACE @ FOLDER_MARK @ S '' migrations/'',
           replicate 8 SPACE @ SCHEMA_MARK @ S '' 001_init.sql''],
          [Path (S ''proj/src/app.py''), Path (S ''proj/migrations/001_init.sql'')],
          [Path (S ''proj/migrations/001_init.sql'')])
   \<and> map fst (pruned_walk letters_lower SCHEMA_HINT_NAMES demo_fs demo_tree (Path (S ''proj''))
        (S ''project_dump.txt''))
       = [S ''proj'', S ''proj/src'', S ''proj/migrations'']"
proof -
  have seg: "S ''node_modules'' \<in> set (path_parts (Path (S ''proj/node_modules/pkg/index.js'')))"
    "S ''node_modules'' \<in> IGNORED_DIRS"
    by code_simp+
  then have "\<exists>part \<in> set (path_parts (Path (S ''proj/node_modules/pkg/index.js''))).
      part \<in> IGNORED_DIRS"
    by blast
  then have "is_ignored letters_lower demo_fs (Path (S ''proj/node_modules/pkg/index.js''))
      (S ''project_dump.txt'') = Inr True"
    using ignored_directories_pruned [OF demo_wf demo_generate_tree,
        of "Path (S ''proj/node_modules/pkg/index.js'')"]
    by blast
  then show ?thesis
    using seg demo_wf demo_generate_tree demo_walk by simp
qed

text \<open>
  C5, as amended. For the result \<open>(tree_text, kept_files, schema_files)\<close> that \<open>generate_tree\<close>
  returns on a tree whose listed names are path components: the schema files are the
  schema-like kept files, in the order of the kept files. Provided that no listed name and
  not the root path holds a newline, the lines of the returned tree text that carry a file
  mark are, without their indentation and in order, the mark and the name of each kept
  file.
\<close>

theorem traversal_result_consistent:
  assumes "wf_tree tree"
    and "generate_tree ul fs tree root_path output_filename = Inr (tree_text, kept_files, schemas)"
  shows "schemas = filter (looks_like_schema_file ul) kept_files
     \<and> set schemas \<subseteq> set kept_files
     \<and> (one_line_names tree \<and> NEWLINE \<notin> set (path_str root_path)
        \<longrightarrow> map strip_indent (filter is_file_line (split_on NEWLINE tree_text))
            = map (file_entry ul) kept_files)"
proof -
  from generate_tree_parts [OF assms(2)] obtain st
    where w: "walk_loop ul SCHEMA_HINT_NAMES fs tree root_path output_filename = Inr st"
      and t: "tree_text = join [NEWLINE] (tree_lines st)"
      and k: "kept_files = files_to_dump st" and s: "schemas = schema_files st"
    by blast
  have f: "schemas = filter (looks_like_schema_file ul) kept_files"
    unfolding k s by (rule walk_loop_schema [OF w])
  then have sub: "set schemas \<subseteq> set kept_files"
    by auto
  have "map strip_indent (filter is_file_line (split_on NEWLINE tree_text))
            = map (file_entry ul) kept_files"
    if "one_line_names tree" "NEWLINE \<notin> set (path_str root_path)"
  proof -
    have "filter is_file_line (split_on NEWLINE tree_text) = filter is_file_line (tree_lines st)"
      unfolding t using walk_loop_one_line [OF w that] by (rule file_lines_of_text)
    then show ?thesis
      unfolding k using walk_loop_lines [OF w assms(1)] by simp
  qed
  with f sub show ?thesis by blast
qed

theorem traversal_result_consistent_witness:
  "wf_tree demo_tree \<and> one_line_names demo_tree \<and> NEWLINE \<notin> set (path_str (Path (S ''proj'')))
   \<and> [Path (S ''proj/migrations/001_init.sql'')]
       = filter (looks_like_schema_file letters_lower)
           [Path (S ''proj/src/app.py''), Path (S ''proj/migrations/001_init.sql'')]
   \<and> map strip_indent (filter is_file_line (split_on NEWLINE
         (join [NEWLINE]
            [FOLDER_MARK @ S '' proj/'',
             replicate 4 SPACE @ FOLDER_MARK @ S '' src/'',
             replicate 8 SPACE @ FILE_MARK @ S '' app.py'',
             replicate 4 SPACE @ FOLDER_MARK @ S '' migrations/'',
             replicate 8 SPACE @ SCHEMA_MARK @ S '' 001_init.sql''])))
       = map (file_entry letters_lower)
           [Path (S ''proj/src/app.py''), Path (S ''proj/migrations/001_init.sql'')]"
proof -
  have o: "one_line_names demo_tree" "NEWLINE \<notin> set (path_str (Path (S ''proj'')))"
    by code_simp+
  show ?thesis
    using traversal_result_consistent [OF demo_wf demo_generate_tree] demo_wf o by blast
qed

text \<open>
  C5 as stated fails on the returned text: a file whose name holds a newline followed by a
  file mark is one kept file and gives two lines with a file mark.
\<close>

theorem newline_name_counterexample:
  "wf_tree two_line_tree
   \<and> generate_tree letters_lower two_line_fs two_line_tree (Path (S ''proj'')) (S ''project_dump.txt'')
       = Inr (FOLDER_MARK @ S '' proj/'' @ [NEWLINE]
                @ replicate 4 SPACE @ FILE_MARK @ S '' x'' @ [NEWLINE]
                @ FILE_MARK @ S '' y.py'',
              [joinpath (Path (S ''proj'')) two_line_name], [])
   \<and> filter is_file_line (split_on NEWLINE
         (FOLDER_MARK @ S '' proj/'' @ [NEWLINE]
            @ replicate 4 SPACE @ FILE_MARK @ S '' x'' @ [NEWLINE]
            @ FILE_MARK @ S '' y.py''))
       = [replicate 4 SPACE @ FILE_MARK @ S '' x'', FILE_MARK @ S '' y.py'']"
  by code_simp

text \<open>
  C10. A regular file with an empty extension that is not schema-like is ignored; the
  empty extension is not in the set of code-like extensions; and no such file is among the
  kept files that \<open>generate_tree\<close> returns.
\<close>

theorem extensionless_files_ignored:
  "(is_file fs p = Inr True \<and> path_suffix p = [] \<and> \<not> looks_like_schema_file ul p
      \<longrightarrow> is_ignored ul fs p output_filename = Inr True)
   \<and> [] \<notin> ALLOWED_CODE_EXTENSIONS
   \<and> (generate_tree ul fs tree root_path output_filename = Inr (tree_text, kept_files, schemas)
      \<longrightarrow> (\<forall>q \<in> set kept_files.
             \<not> (is_file fs q = Inr True \<and> path_suffix q = [] \<and> \<not> looks_like_schema_file ul q)))"
proof -
  have a: "[] \<notin> ALLOWED_CODE_EXTENSIONS"
    by (simp add: ALLOWED_CODE_EXTENSIONS_def S_simps)
  have b: "is_ignored ul fs q output_filename = Inr True"
    if "is_file fs q = Inr True" "path_suffix q = []" "\<not> looks_like_schema_file ul q" for q
    using that a by (simp add: is_ignored_in_def lower_empty)
  have c: "\<forall>q \<in> set kept_files.
             \<not> (is_file fs q = Inr True \<and> path_suffix q = [] \<and> \<not> looks_like_schema_file ul q)"
    if "generate_tree ul fs tree root_path output_filename = Inr (tree_text, kept_files, schemas)"
  proof -
    from generate_tree_parts [OF that] obtain st
      where w: "walk_loop ul SCHEMA_HINT_NAMES fs tree root_path output_filename = Inr st"
        and k: "kept_files = files_to_dump st"
      by blast
    show ?thesis
      unfolding k using walk_loop_kept [OF w] b by fastforce
  qed
  show ?thesis
    using a b c by blast
qed

lemma tool_generate_tree:
  "generate_tree letters_lower tool_fs tool_tree (Path (S ''tool'')) (S ''project_dump.txt'')
   = Inr (join [NEWLINE] [FOLDER_MARK @ S '' tool/'', replicate 4 SPACE @ FILE_MARK @ S '' main.py''],
          [Path (S ''tool/main.py'')], [])"
  by code_simp

theorem extensionless_files_ignored_witness:
  "is_file tool_fs (Path (S ''tool/Makefile'')) = Inr True
   \<and> path_suffix (Path (S ''tool/Makefile'')) = []
   \<and> \<not> looks_like_schema_file letters_lower (Path (S ''tool/Makefile''))
   \<and> is_ignored letters_lower tool_fs (Path (S ''tool/Makefile'')) (S ''project_dump.txt'')
       = Inr True
   \<and> generate_tree letters_lower tool_fs tool_tree (Path (S ''tool'')) (S ''project_dump.txt'')
       = Inr (join [NEWLINE]
                [FOLDER_MARK @ S '' tool/'', replicate 4 SPACE @ FILE_MARK @ S '' main.py''],
              [Path (S ''tool/main.py'')], [])"
proof -
  have h: "is_file tool_fs (Path (S ''tool/Makefile'')) = Inr True"
    "path_suffix (Path (S ''tool/Makefile'')) = []"
    "\<not> looks_like_schema_file letters_lower (Path (S ''tool/Makefile''))"
    by code_simp+
  then have "is_ignored letters_lower tool_fs (Path (S ''tool/Makefile'')) (S ''project_dump.txt'')
      = Inr True"
    using extensionless_files_ignored [of tool_fs "Path (S ''tool/Makefile'')" letters_lower
        "S ''project_dump.txt''"]
    by blast
  then show ?thesis
    using h tool_generate_tree by simp
qed

text \<open>
  C8. The result does not depend on the order in which the set of schema-hint names is
  iterated, the one order the code leaves to the Python runtime: with any enumeration of
  that set, the classifier and \<open>generate_tree\<close> return, or raise, what they do with the order
  of the source. Everything else they read is an argument: the path, the file system and
  the output file name. Two runs on the same file system state thus return the same tree
  text and the same two lists.
\<close>

theorem traversal_deterministic:
  assumes "set ks = set SCHEMA_HINT_NAMES"
  shows "looks_like_schema_file_in ul ks p = looks_like_schema_file ul p
     \<and> is_ignored_in ul ks fs p output_filename = is_ignored ul fs p output_filename
     \<and> generate_tree_in ul ks fs tree root_path output_filename
         = generate_tree ul fs tree root_path output_filename"
  using assms looks_like_schema_file_order is_ignored_order generate_tree_order by blast

theorem traversal_deterministic_witness:
  "set (rev SCHEMA_HINT_NAMES) = set SCHEMA_HINT_NAMES
   \<and> generate_tree_in letters_lower (rev SCHEMA_HINT_NAMES) demo_fs demo_tree (Path (S ''proj''))
        (S ''project_dump.txt'')
       = generate_tree letters_lower demo_fs demo_tree (Path (S ''proj'')) (S ''project_dump.txt'')"
  using traversal_deterministic [of "rev SCHEMA_HINT_NAMES"] by simp

text \<open>
  C9 does not hold of the code. The level is the number of separators left after
  \<open>root.replace(str(root_path), '')\<close>, which removes every occurrence of the root string,
  not only the leading one. In the project at \<open>app/src\<close> the directory \<open>app/src/app/src\<close>
  lies two separators below the root, but what is left of its path is \<open>'/'\<close>: its level is 1
  and its line has four spaces, like the line of its parent \<open>app/src/app\<close>. A root string
  without a separator cannot show this (lemma \<open>level_of_no_sep\<close>).
\<close>

theorem nested_root_indentation:
  "map fst (pruned_walk letters_lower SCHEMA_HINT_NAMES nested_fs nested_tree (Path (S ''app/src''))
      (S ''project_dump.txt''))
     = [S ''app/src'', S ''app/src/app'', S ''app/src/app/src'']
   \<and> remove_all (S ''app/src/app/src'') (S ''app/src'') = S ''/''
   \<and> level_of (S ''app/src'') (S ''app/src/app/src'') = 1
   \<and> walk_loop letters_lower SCHEMA_HINT_NAMES nested_fs nested_tree (Path (S ''app/src''))
        (S ''project_dump.txt'')
     = Inr \<lparr>tree_lines =
              [FOLDER_MARK @ S '' src/'',
               replicate 4 SPACE @ FILE_MARK @ S '' main.py'',
               replicate 4 SPACE @ FOLDER_MARK @ S '' app/'',
               replicate 4 SPACE @ FOLDER_MARK @ S '' src/'',
               replicate 8 SPACE @ FILE_MARK @ S '' util.py''],
            files_to_dump = [Path (S ''app/src/main.py''), Path (S ''app/src/app/src/util.py'')],
            schema_files = []\<rparr>"
  by code_simp

theorem nested_root_indentation_witness:
  "tree_lines (projr (walk_loop letters_lower SCHEMA_HINT_NAMES nested_fs nested_tree
       (Path (S ''app/src'')) (S ''project_dump.txt''))) ! 3
     = replicate 4 SPACE @ FOLDER_MARK @ S '' src/''
   \<and> count_char (S ''/app/src'') SEP = 2"
proof -
  have "count_char (S ''/app/src'') SEP = 2"
    by code_simp
  then show ?thesis
    using nested_root_indentation by simp
qed

end
